theory Spec2Isabelle
  imports Main "HOL-Library.AList"
begin

section \<open>JavaScript strings, numbers and objects\<close>

text \<open>
  The services are TypeScript. A JavaScript string is a sequence of UTF-16 code units; the
  model uses \<^typ>\<open>string\<close> and reads each \<^typ>\<open>char\<close> as the code unit of the same number,
  so it covers the strings whose code units are below \<open>0x100\<close> (Latin-1, which holds every
  literal of the source: \<open>CHR 0xE3\<close> is a-tilde, \<open>CHR 0xE9\<close> e-acute, \<open>CHR 0xE7\<close> c-cedilla).
  Times are milliseconds since the epoch, as \<open>Date.getTime()\<close> gives them. Numbers that the
  code obtains from \<open>parseInt\<close> are mathematical integers (JavaScript rounds beyond \<open>2^53\<close>).
\<close>

definition upperLetters :: string where
  "upperLetters = ''ABCDEFGHIJKLMNOPQRSTUVWXYZ'' @
     [CHR 0xC0, CHR 0xC1, CHR 0xC2, CHR 0xC3, CHR 0xC4, CHR 0xC5, CHR 0xC6, CHR 0xC7,
      CHR 0xC8, CHR 0xC9, CHR 0xCA, CHR 0xCB, CHR 0xCC, CHR 0xCD, CHR 0xCE, CHR 0xCF,
      CHR 0xD0, CHR 0xD1, CHR 0xD2, CHR 0xD3, CHR 0xD4, CHR 0xD5, CHR 0xD6,
      CHR 0xD8, CHR 0xD9, CHR 0xDA, CHR 0xDB, CHR 0xDC, CHR 0xDD, CHR 0xDE]"

definition lowerLetters :: string where
  "lowerLetters = ''abcdefghijklmnopqrstuvwxyz'' @
     [CHR 0xE0, CHR 0xE1, CHR 0xE2, CHR 0xE3, CHR 0xE4, CHR 0xE5, CHR 0xE6, CHR 0xE7,
      CHR 0xE8, CHR 0xE9, CHR 0xEA, CHR 0xEB, CHR 0xEC, CHR 0xED, CHR 0xEE, CHR 0xEF,
      CHR 0xF0, CHR 0xF1, CHR 0xF2, CHR 0xF3, CHR 0xF4, CHR 0xF5, CHR 0xF6,
      CHR 0xF8, CHR 0xF9, CHR 0xFA, CHR 0xFB, CHR 0xFC, CHR 0xFD, CHR 0xFE]"

definition lowerChar :: "char \<Rightarrow> char" where
  "lowerChar c = (case map_of (zip upperLetters lowerLetters) c of Some l \<Rightarrow> l | None \<Rightarrow> c)"

definition toLowerCase :: "string \<Rightarrow> string" where
  \<comment> \<open>\<open>String.prototype.toLowerCase\<close>: the multiplication sign \<open>0xD7\<close> and sharp s stay.\<close>
  "toLowerCase s = map lowerChar s"

definition isWhiteSpace :: "char \<Rightarrow> bool" where
  \<comment> \<open>WhiteSpace and LineTerminator below \<open>0x100\<close>: what \<open>trim\<close>, \<open>\s\<close> and \<open>parseInt\<close> skip.\<close>
  "isWhiteSpace c = (c \<in> set [CHR 0x09, CHR 0x0A, CHR 0x0B, CHR 0x0C, CHR 0x0D, CHR 0x20, CHR 0xA0])"

definition trim :: "string \<Rightarrow> string" where
  "trim s = rev (dropWhile isWhiteSpace (rev (dropWhile isWhiteSpace s)))"

definition startsWith :: "string \<Rightarrow> string \<Rightarrow> bool" where
  "startsWith s p = (take (length p) s = p)"

definition endsWith :: "string \<Rightarrow> string \<Rightarrow> bool" where
  "endsWith s p = (length p \<le> length s \<and> drop (length s - length p) s = p)"

definition substring :: "string \<Rightarrow> nat \<Rightarrow> nat \<Rightarrow> string" where
  \<comment> \<open>\<open>s.substring(a, b)\<close>: the two indices are swapped when \<open>a > b\<close>.\<close>
  "substring s a b = (let lo = min a b; hi = max a b in take (hi - lo) (drop lo s))"

fun join :: "string \<Rightarrow> string list \<Rightarrow> string" where
  "join sep [] = []"
| "join sep [x] = x"
| "join sep (x # y # ys) = x @ sep @ join sep (y # ys)"

text \<open>
  The lookup tables of the source are object literals read with \<open>table[key]\<close>. Such a read
  finds the table's own entry or, failing that, a member inherited from
  \<open>Object.prototype\<close>, which is a function (or, for \<open>__proto__\<close>, the prototype object) and
  therefore truthy. A value read from a table is its own value or such a member.
\<close>

datatype 'a jsval = Val 'a | ProtoMember string

definition objectPrototypeMembers :: "string list" where
  "objectPrototypeMembers =
     [''constructor'', ''__defineGetter__'', ''__defineSetter__'', ''hasOwnProperty'',
      ''__lookupGetter__'', ''__lookupSetter__'', ''isPrototypeOf'', ''propertyIsEnumerable'',
      ''toString'', ''valueOf'', ''__proto__'', ''toLocaleString'']"

definition rec_get :: "(string \<times> 'a) list \<Rightarrow> string \<Rightarrow> 'a jsval option" where
  \<comment> \<open>\<open>table[key]\<close>; \<open>None\<close> is \<open>undefined\<close>.\<close>
  "rec_get table key =
     (case map_of table key of
        Some v \<Rightarrow> Some (Val v)
      | None \<Rightarrow> if key \<in> set objectPrototypeMembers then Some (ProtoMember key) else None)"

fun truthy :: "string jsval \<Rightarrow> bool" where
  "truthy (Val s) = (s \<noteq> [])"
| "truthy (ProtoMember m) = True"

fun to_str :: "string jsval \<Rightarrow> string" where
  \<comment> \<open>The string a value turns into inside a template literal or as a property key.\<close>
  "to_str (Val s) = s"
| "to_str (ProtoMember m) =
     (if m = ''__proto__'' then ''[object Object]''
      else ''function '' @ (if m = ''constructor'' then ''Object'' else m) @ ''() { [native code] }'')"

section \<open>Metadata cache: entity-name normalization\<close>

definition commonMappings :: "(string \<times> string) list" where
  "commonMappings =
     [(''account'', ''account''), (''accounts'', ''account''),
      (''contact'', ''contact''), (''contacts'', ''contact''),
      (''opportunity'', ''opportunity''), (''opportunities'', ''opportunity''),
      (''lead'', ''lead''), (''leads'', ''lead''),
      (''case'', ''incident''), (''cases'', ''incident''),
      (''incident'', ''incident''), (''incidents'', ''incident''),
      (''activity'', ''activity''), (''activities'', ''activity'')]"

definition normalizeEntityName :: "string \<Rightarrow> string jsval" where
  \<comment> \<open>\<open>singularName\<close> is computed and never read, as in the source.\<close>
  "normalizeEntityName entityName =
     (let singularName = (if endsWith entityName ''s'' then butlast entityName else entityName)
      in case rec_get commonMappings (toLowerCase entityName) of
           Some v \<Rightarrow> if truthy v then v else Val (toLowerCase entityName)
         | None \<Rightarrow> Val (toLowerCase entityName))"

section \<open>Metadata cache: entity details\<close>

text \<open>
  The raw schema documents of the connector are untyped in the source. The model gives them
  the shape the code reads: every property may be absent (\<open>None\<close>), a chain such as
  \<open>DisplayName?.UserLocalizedLabel?.Label\<close> is one optional string, and \<open>IsCustomEntity\<close>
  may be absent, \<open>null\<close>, a boolean or a managed property carrying \<open>Value\<close>.
\<close>

type_synonym number = int

record RawOption =
  opt_Value :: number
  opt_Label :: "string option"

record RawOptionSet =
  os_Name :: "string option"
  os_Options :: "RawOption list option"

record RawAttribute =
  attr_LogicalName :: "string option"
  attr_SchemaName :: "string option"
  attr_DisplayNameLabel :: "string option"
  attr_AttributeType :: "string option"
  attr_DescriptionLabel :: "string option"
  attr_RequiredLevelValue :: "string option"
  attr_IsPrimaryId :: "bool option"
  attr_IsPrimaryName :: "bool option"
  attr_MaxLength :: "number option"
  attr_MinValue :: "number option"
  attr_MaxValue :: "number option"
  attr_Precision :: "number option"
  attr_OptionSet :: "RawOptionSet option"

record RawRelationship =
  rel_SchemaName :: "string option"
  rel_ReferencedEntity :: "string option"
  rel_ReferencingEntity :: "string option"
  rel_Entity2LogicalName :: "string option"
  rel_ReferencingEntityNavigationPropertyName :: "string option"
  rel_ReferencedEntityNavigationPropertyName :: "string option"
  rel_Entity1NavigationPropertyName :: "string option"
  rel_ReferencingAttribute :: "string option"

datatype raw_flag = FlagNull | FlagBool bool | FlagManaged "bool option"

record RawEntity =
  ent_LogicalName :: "string option"
  ent_SchemaName :: "string option"
  ent_DisplayNameLabel :: "string option"
  ent_DisplayCollectionNameLabel :: "string option"
  ent_EntitySetName :: "string option"
  ent_DescriptionLabel :: "string option"
  ent_PrimaryIdAttribute :: "string option"
  ent_PrimaryNameAttribute :: "string option"
  ent_IsCustomEntity :: "raw_flag option"
  ent_Attributes :: "RawAttribute list option"
  ent_ManyToOneRelationships :: "RawRelationship list option"
  ent_OneToManyRelationships :: "RawRelationship list option"
  ent_ManyToManyRelationships :: "RawRelationship list option"

record OptionSet =
  optionSetName :: "string option"
  options :: "(number \<times> string) list"

record MetadataAttribute =
  attrName :: "string option"
  attrDisplayName :: "string option"
  attrType :: "string option"
  attrDescription :: "string option"
  required :: bool
  isPrimaryId :: "bool option"
  isPrimaryName :: "bool option"
  maxLength :: "number option"
  precision :: "number option"
  minValue :: "number option"
  maxValue :: "number option"
  optionSet :: "OptionSet option"

record MetadataRelationship =
  relName :: "string option"
  relType :: string
  referencedEntity :: "string option"
  navigationProperty :: "string option"
  lookupField :: "string option"

record MetadataEntity =
  entName :: "string option"
  entDisplayName :: "string option"
  displayCollectionName :: "string option"
  entDescription :: "string option"
  primaryIdField :: "string option"
  primaryNameField :: "string option"
  isCustomEntity :: "bool option"
  attributes :: "MetadataAttribute list"
  relationships :: "MetadataRelationship list"

record MetadataCache =
  entities :: "(string \<times> MetadataEntity) list"
  lastUpdated :: int

record EntityDetailsOptions =
  includeAttributes :: "bool option"
  includeOptionSets :: "bool option"
  includeAttributeTypes :: "bool option"
  selectEntityProperties :: "string list option"
  selectAttributeProperties :: "string list option"
  refresh :: "bool option"

record MetadataRequest =
  req_includeAttributes :: "bool option"
  req_includeOptionSets :: "bool option"
  req_includeAttributeTypes :: "bool option"
  req_selectEntityProperties :: "string list option"
  req_selectAttributeProperties :: "string list option"

record QueryOptions =
  q_filter :: "string option"
  q_select :: "string list option"
  q_orderBy :: "string option"
  q_top :: "number option"

type_synonym crm_record = "(string \<times> string) list"

text \<open>
  The CRM connector is a collaborator. A call either throws (\<open>Inl\<close> with the message of the
  exception) or returns; \<open>getEntityMetadata\<close> may return nothing (\<open>None\<close>). The services
  append every call they make to a log.
\<close>

record connector =
  getEntityMetadata :: "string jsval \<Rightarrow> MetadataRequest \<Rightarrow> string + RawEntity option"
  queryEntities :: "string jsval \<Rightarrow> QueryOptions \<Rightarrow> string + crm_record list"

datatype conn_call =
  GetEntityMetadataCall "string jsval" MetadataRequest
| QueryEntitiesCall "string jsval" QueryOptions

text \<open>
  Exceptions are values. Each constructor stands for one \<open>throw\<close> of the source and keeps
  the parts its message is built from; a wrapping \<open>catch\<close> keeps the error it wraps.
\<close>

datatype error =
  ConnectorError string                   \<comment> \<open>an exception of the connector, with its message\<close>
| TypeError string                        \<comment> \<open>a TypeError of the runtime\<close>
| MetadataNotReturned "string jsval"      \<comment> \<open>the connector returned no metadata for the entity\<close>
| LoadFailed "string jsval" error         \<comment> \<open>loading the details of the entity failed: the cause\<close>
| NotInCacheAfterLoad string "string jsval"  \<comment> \<open>the entity is not in the cache after the load\<close>
| DetailsFailed string error              \<comment> \<open>getting the details of the entity failed: the cause\<close>
| IncompleteParameters                    \<comment> \<open>query parameters incomplete\<close>
| NoRecordFound                           \<comment> \<open>no record found with the given filters\<close>
| UnsupportedAction string                \<comment> \<open>the action is not supported\<close>
| FilterFormat                            \<comment> \<open>filter format not recognized\<close>
| OrderByFormat                           \<comment> \<open>ordering format not recognized\<close>
| GetNeedsFilter                          \<comment> \<open>details of a record need an id or a unique filter\<close>

record meta_state =
  cache :: MetadataCache
  meta_calls :: "conn_call list"

definition cacheExpirationMs :: int where
  "cacheExpirationMs = 3600000"

definition isCacheExpired :: "int \<Rightarrow> meta_state \<Rightarrow> bool" where
  "isCacheExpired now st = (now - lastUpdated (cache st) > cacheExpirationMs)"

definition orElse :: "string option \<Rightarrow> string option \<Rightarrow> string option" where
  \<comment> \<open>\<open>a || b\<close> on optional strings: the empty string is falsy.\<close>
  "orElse a b = (case a of Some s \<Rightarrow> if s \<noteq> [] then a else b | None \<Rightarrow> b)"

definition isTrue :: "bool option \<Rightarrow> bool" where
  "isTrue b = (b = Some True)"

function showNat :: "nat \<Rightarrow> string" where
  "showNat n = (if n < 10 then [''0123456789'' ! n] else showNat (n div 10) @ [''0123456789'' ! (n mod 10)])"
  by pat_completeness auto
termination
  by (relation "measure id") auto

definition showInt :: "int \<Rightarrow> string" where
  "showInt i = (if i < 0 then ''-'' @ showNat (nat (- i)) else showNat (nat i))"

definition mapOption :: "RawOption \<Rightarrow> number \<times> string" where
  "mapOption opt =
     (opt_Value opt,
      case orElse (opt_Label opt) None of
        Some l \<Rightarrow> l
      | None \<Rightarrow> ''Op'' @ [CHR 0xE7, CHR 0xE3] @ ''o '' @ showInt (opt_Value opt))"

definition hasOptionSetType :: "string option \<Rightarrow> bool" where
  "hasOptionSetType t =
     (t = Some ''Picklist'' \<or> t = Some ''Status'' \<or> t = Some ''State'' \<or> t = Some ''Boolean'')"

definition mapAttribute :: "EntityDetailsOptions \<Rightarrow> RawAttribute \<Rightarrow> MetadataAttribute" where
  "mapAttribute opts attr =
     (let attribute =
        \<lparr> attrName = attr_LogicalName attr,
          attrDisplayName =
            orElse (orElse (attr_DisplayNameLabel attr) (attr_SchemaName attr)) (attr_LogicalName attr),
          attrType = attr_AttributeType attr,
          attrDescription = attr_DescriptionLabel attr,
          required = (attr_RequiredLevelValue attr = Some ''ApplicationRequired''
                      \<or> attr_RequiredLevelValue attr = Some ''SystemRequired''),
          isPrimaryId = attr_IsPrimaryId attr,
          isPrimaryName = attr_IsPrimaryName attr,
          maxLength = attr_MaxLength attr,
          precision = attr_Precision attr,
          minValue = attr_MinValue attr,
          maxValue = attr_MaxValue attr,
          optionSet = None \<rparr>
      in case attr_OptionSet attr of
           Some os \<Rightarrow>
             if isTrue (includeOptionSets opts) \<and> hasOptionSetType (attr_AttributeType attr)
             then attribute \<lparr> optionSet := Some
                    \<lparr> optionSetName = os_Name os,
                      options = (case os_Options os of Some xs \<Rightarrow> map mapOption xs | None \<Rightarrow> []) \<rparr> \<rparr>
             else attribute
         | None \<Rightarrow> attribute)"

definition mapRelationship :: "string \<Rightarrow> RawRelationship \<Rightarrow> MetadataRelationship" where
  "mapRelationship type rel =
     \<lparr> relName = rel_SchemaName rel,
       relType = type,
       referencedEntity =
         (if type = ''ManyToOne'' then rel_ReferencedEntity rel
          else if type = ''OneToMany'' then rel_ReferencingEntity rel
          else rel_Entity2LogicalName rel),
       navigationProperty =
         (if type = ''ManyToOne'' then rel_ReferencingEntityNavigationPropertyName rel
          else if type = ''OneToMany'' then rel_ReferencedEntityNavigationPropertyName rel
          else rel_Entity1NavigationPropertyName rel),
       lookupField = (if type = ''ManyToOne'' then rel_ReferencingAttribute rel else None) \<rparr>"

definition customEntityFlag :: "raw_flag option \<Rightarrow> error + bool option" where
  \<comment> \<open>\<open>IsCustomEntity === undefined ? false : IsCustomEntity.Value\<close>; reading \<open>.Value\<close> of \<open>null\<close> throws.\<close>
  "customEntityFlag f =
     (case f of
        None \<Rightarrow> Inr (Some False)
      | Some FlagNull \<Rightarrow> Inl (TypeError ''Cannot read properties of null'')
      | Some (FlagBool b) \<Rightarrow> Inr None
      | Some (FlagManaged v) \<Rightarrow> Inr v)"

definition relationshipsOf :: "string \<Rightarrow> RawRelationship list option \<Rightarrow> MetadataRelationship list" where
  "relationshipsOf type rels = (case rels of Some rs \<Rightarrow> map (mapRelationship type) rs | None \<Rightarrow> [])"

definition metadataRequest :: "EntityDetailsOptions \<Rightarrow> MetadataRequest" where
  \<comment> \<open>The options object handed to the connector; \<open>includeAttributes ?? true\<close>.\<close>
  "metadataRequest opts =
     \<lparr> req_includeAttributes =
         (case includeAttributes opts of None \<Rightarrow> Some True | Some b \<Rightarrow> Some b),
       req_includeOptionSets = includeOptionSets opts,
       req_includeAttributeTypes = includeAttributeTypes opts,
       req_selectEntityProperties = selectEntityProperties opts,
       req_selectAttributeProperties = selectAttributeProperties opts \<rparr>"

definition loadedEntry :: "EntityDetailsOptions \<Rightarrow> RawEntity \<Rightarrow> bool option \<Rightarrow> MetadataEntity" where
  \<comment> \<open>The cache entry as \<open>loadEntityDetails\<close> builds it: the bare entry, then its attributes,
     then the three groups of relationships pushed in turn.\<close>
  "loadedEntry opts entityMetadata custom =
     (let entry0 =
        \<lparr> entName = ent_LogicalName entityMetadata,
          entDisplayName =
            orElse (orElse (ent_DisplayNameLabel entityMetadata) (ent_SchemaName entityMetadata))
              (ent_LogicalName entityMetadata),
          displayCollectionName =
            orElse (orElse (ent_DisplayCollectionNameLabel entityMetadata)
                      (ent_EntitySetName entityMetadata))
              (ent_LogicalName entityMetadata),
          entDescription = ent_DescriptionLabel entityMetadata,
          primaryIdField = ent_PrimaryIdAttribute entityMetadata,
          primaryNameField = ent_PrimaryNameAttribute entityMetadata,
          isCustomEntity = custom,
          attributes = [],
          relationships = [] \<rparr>;
        entry1 =
          (case ent_Attributes entityMetadata of
             Some attrs \<Rightarrow>
               if isTrue (includeAttributes opts)
               then entry0 \<lparr> attributes := map (mapAttribute opts) attrs \<rparr>
               else entry0
           | None \<Rightarrow> entry0);
        entry2 = entry1 \<lparr> relationships := relationships entry1
            @ relationshipsOf ''ManyToOne'' (ent_ManyToOneRelationships entityMetadata) \<rparr>;
        entry3 = entry2 \<lparr> relationships := relationships entry2
            @ relationshipsOf ''OneToMany'' (ent_OneToManyRelationships entityMetadata) \<rparr>
      in entry3 \<lparr> relationships := relationships entry3
            @ relationshipsOf ''ManyToMany'' (ent_ManyToManyRelationships entityMetadata) \<rparr>)"

definition loadEntityDetails ::
  "connector \<Rightarrow> int \<Rightarrow> string jsval \<Rightarrow> EntityDetailsOptions \<Rightarrow> meta_state \<Rightarrow> (error + unit) \<times> meta_state" where
  "loadEntityDetails conn now entityName opts st =
     (let st1 = st \<lparr> meta_calls := meta_calls st @ [GetEntityMetadataCall entityName (metadataRequest opts)] \<rparr>
      in case getEntityMetadata conn entityName (metadataRequest opts) of
           Inl msg \<Rightarrow> (Inl (LoadFailed entityName (ConnectorError msg)), st1)
         | Inr None \<Rightarrow> (Inl (LoadFailed entityName (MetadataNotReturned entityName)), st1)
         | Inr (Some entityMetadata) \<Rightarrow>
             (case customEntityFlag (ent_IsCustomEntity entityMetadata) of
                Inl e \<Rightarrow> (Inl (LoadFailed entityName e), st1)
              | Inr custom \<Rightarrow>
                  (Inr (),
                   st1 \<lparr> cache :=
                     \<lparr> entities = AList.update (to_str entityName)
                                    (loadedEntry opts entityMetadata custom) (entities (cache st1)),
                       lastUpdated = now \<rparr> \<rparr>)))"

definition hasAttributes :: "MetadataEntity jsval option \<Rightarrow> bool" where
  \<comment> \<open>\<open>entry?.attributes?.length\<close> is truthy; an inherited member has no \<open>attributes\<close>.\<close>
  "hasAttributes v = (case v of Some (Val e) \<Rightarrow> attributes e \<noteq> [] | _ \<Rightarrow> False)"

definition hasOptionSets :: "MetadataEntity jsval option \<Rightarrow> bool" where
  \<comment> \<open>\<open>entry?.attributes?.some(a => a.optionSet)\<close>.\<close>
  "hasOptionSets v =
     (case v of Some (Val e) \<Rightarrow> list_ex (\<lambda>a. optionSet a \<noteq> None) (attributes e) | _ \<Rightarrow> False)"

definition getEntityDetails ::
  "connector \<Rightarrow> int \<Rightarrow> string \<Rightarrow> EntityDetailsOptions \<Rightarrow> meta_state
     \<Rightarrow> (error + MetadataEntity jsval) \<times> meta_state" where
  "getEntityDetails conn now entityName opts st =
     (let normalizedEntityName = normalizeEntityName entityName;
          key = to_str normalizedEntityName;
          cached = rec_get (entities (cache st)) key;
          (loaded, st1) =
            (if isTrue (refresh opts) \<or> isCacheExpired now st \<or> cached = None
                \<or> (isTrue (includeAttributes opts) \<and> \<not> hasAttributes cached)
                \<or> (isTrue (includeOptionSets opts) \<and> \<not> hasOptionSets cached)
             then loadEntityDetails conn now normalizedEntityName opts st
             else (Inr (), st))
      in case loaded of
           Inl e \<Rightarrow> (Inl (DetailsFailed entityName e), st1)
         | Inr u \<Rightarrow>
             (case rec_get (entities (cache st1)) key of
                None \<Rightarrow> (Inl (DetailsFailed entityName (NotInCacheAfterLoad entityName normalizedEntityName)), st1)
              | Some entity \<Rightarrow> (Inr entity, st1)))"

section \<open>Regular expressions\<close>

text \<open>
  The regular expressions of the services are sequences of character classes, each taken
  once or repeated greedily, with capture groups around single repeated classes, and one
  trailing alternative of literal words. All carry the flag \<open>i\<close>. The matcher below is the
  backtracking matcher of the language restricted to this shape: a repetition first takes
  as many characters as it can and gives them back one by one while the rest of the
  pattern fails; \<open>search\<close> tries the start positions from left to right, as
  \<open>String.prototype.match\<close> does for a pattern without the flag \<open>g\<close>.
\<close>

definition canon :: "char \<Rightarrow> char" where
  \<comment> \<open>Canonicalize of a pattern with flag \<open>i\<close> (upper case). The characters \<open>0xB5\<close>, \<open>0xDF\<close>
     and \<open>0xFF\<close> have no upper case below \<open>0x100\<close> and compare equal to themselves only.\<close>
  "canon c = (case map_of (zip lowerLetters upperLetters) c of Some u \<Rightarrow> u | None \<Rightarrow> c)"

definition wordChars :: string where
  "wordChars = ''abcdefghijklmnopqrstuvwxyzABCDEFGHIJKLMNOPQRSTUVWXYZ0123456789_''"

datatype cclass =
  Word                  \<comment> \<open>\<open>\w\<close>\<close>
| Space                 \<comment> \<open>\<open>\s\<close>\<close>
| AnyChar               \<comment> \<open>\<open>.\<close>: anything but a line terminator\<close>
| Chars "char list"     \<comment> \<open>a literal character or a class \<open>[...]\<close>\<close>
| NotChars "char list"  \<comment> \<open>a negated class \<open>[^...]\<close>\<close>

fun cmatch :: "cclass \<Rightarrow> char \<Rightarrow> bool" where
  "cmatch Word c = (c \<in> set wordChars)"
| "cmatch Space c = isWhiteSpace c"
| "cmatch AnyChar c = (c \<notin> set [CHR 0x0A, CHR 0x0D])"
| "cmatch (Chars cs) c = (canon c \<in> set (map canon cs))"
| "cmatch (NotChars cs) c = (canon c \<notin> set (map canon cs))"

datatype quant = Once | Many0 | Many1

datatype item =
  Atom cclass quant "nat option"  \<comment> \<open>a class, its repetition, and the group that captures it\<close>
| Alt "string list"               \<comment> \<open>\<open>(w1|w2|...)\<close>, literal words tried in order\<close>

type_synonym captures = "(nat \<times> string) list"

definition capture :: "nat option \<Rightarrow> string \<Rightarrow> captures \<Rightarrow> captures" where
  "capture g s caps = (case g of None \<Rightarrow> caps | Some n \<Rightarrow> (n, s) # caps)"

definition group :: "captures \<Rightarrow> nat \<Rightarrow> string option" where
  "group caps n = map_of caps n"

definition startsWithIgnoreCase :: "string \<Rightarrow> string \<Rightarrow> bool" where
  "startsWithIgnoreCase s w = (length w \<le> length s \<and> map canon (take (length w) s) = map canon w)"

function (sequential) run :: "item list \<Rightarrow> string \<Rightarrow> captures \<Rightarrow> (captures \<times> string) option"
  and backtrack :: "cclass \<Rightarrow> nat option \<Rightarrow> item list \<Rightarrow> nat \<Rightarrow> nat \<Rightarrow> string \<Rightarrow> captures
                      \<Rightarrow> (captures \<times> string) option"
  and alternatives :: "string list \<Rightarrow> item list \<Rightarrow> string \<Rightarrow> captures \<Rightarrow> (captures \<times> string) option"
where
  "run [] s caps = Some (caps, s)"
| "run (Atom c Once g # r) s caps =
     (case s of
        [] \<Rightarrow> None
      | x # xs \<Rightarrow> if cmatch c x then run r xs (capture g [x] caps) else None)"
| "run (Atom c Many0 g # r) s caps =
     backtrack c g r (length (takeWhile (cmatch c) s)) 0 s caps"
| "run (Atom c Many1 g # r) s caps =
     (if takeWhile (cmatch c) s = [] then None
      else backtrack c g r (length (takeWhile (cmatch c) s)) 1 s caps)"
| "run (Alt ws # r) s caps = alternatives ws r s caps"
| "backtrack c g r k lo s caps =
     (case run r (drop k s) (capture g (take k s) caps) of
        Some m \<Rightarrow> Some m
      | None \<Rightarrow> if lo < k then backtrack c g r (k - 1) lo s caps else None)"
| "alternatives [] r s caps = None"
| "alternatives (w # ws) r s caps =
     (if startsWithIgnoreCase s w
      then (case run r (drop (length w) s) caps of
              Some m \<Rightarrow> Some m
            | None \<Rightarrow> alternatives ws r s caps)
      else alternatives ws r s caps)"
  by pat_completeness auto
termination
  by (relation "inv_image (less_than <*lex*> less_than <*lex*> less_than)
        (\<lambda>x. case x of
           Inl (its, s, caps) \<Rightarrow> (length its, 0, 0)
         | Inr (Inl (c, g, r, k, lo, s, caps)) \<Rightarrow> (length r, 1, k)
         | Inr (Inr (ws, r, s, caps)) \<Rightarrow> (length r, 1, length ws))") auto

fun search :: "item list \<Rightarrow> string \<Rightarrow> captures option" where
  "search re [] = (case run re [] [] of Some (caps, rest) \<Rightarrow> Some caps | None \<Rightarrow> None)"
| "search re (x # xs) =
     (case run re (x # xs) [] of Some (caps, rest) \<Rightarrow> Some caps | None \<Rightarrow> search re xs)"

text \<open>
  What the matcher decides, without the order of its attempts: \<open>accepts re s\<close> holds when
  some prefix of \<open>s\<close> matches the pattern \<open>re\<close>. A repetition may take any number of
  characters up to the longest run of its class.
\<close>

fun accepts :: "item list \<Rightarrow> string \<Rightarrow> bool" where
  "accepts [] s = True"
| "accepts (Atom c Once g # r) s = (case s of [] \<Rightarrow> False | x # xs \<Rightarrow> cmatch c x \<and> accepts r xs)"
| "accepts (Atom c Many0 g # r) s =
     (\<exists>k. k \<le> length (takeWhile (cmatch c) s) \<and> accepts r (drop k s))"
| "accepts (Atom c Many1 g # r) s =
     (\<exists>k. 0 < k \<and> k \<le> length (takeWhile (cmatch c) s) \<and> accepts r (drop k s))"
| "accepts (Alt ws # r) s =
     (\<exists>w \<in> set ws. startsWithIgnoreCase s w \<and> accepts r (drop (length w) s))"

definition lit :: "string \<Rightarrow> item list" where
  "lit w = map (\<lambda>c. Atom (Chars [c]) Once None) w"

definition fieldGroup :: item where
  \<comment> \<open>\<open>(\w+)\<close> as group 1\<close>
  "fieldGroup = Atom Word Many1 (Some 1)"

definition valueGroup :: item where
  \<comment> \<open>\<open>(.+)\<close> as group 2\<close>
  "valueGroup = Atom AnyChar Many1 (Some 2)"

definition spaces1 :: item where
  "spaces1 = Atom Space Many1 None"

definition spaces0 :: item where
  "spaces0 = Atom Space Many0 None"

section \<open>Query assistant: filter phrases\<close>

datatype filterInfo =
  Raw string                   \<comment> \<open>a plain string, as stored under the key \<open>id\<close>\<close>
| Cond "string jsval" string   \<comment> \<open>\<open>{ operator, value }\<close>\<close>

type_synonym filter_map = "(string \<times> filterInfo) list"

definition worded :: "string list \<Rightarrow> item list" where
  \<comment> \<open>\<open>(\w+)\s+w1\s+...\s+wn\s+(.+)\<close>\<close>
  "worded ws = fieldGroup # concat (map (\<lambda>w. spaces1 # lit w) ws) @ [spaces1, valueGroup]"

definition symbolic :: "string \<Rightarrow> item list" where
  \<comment> \<open>\<open>(\w+)\s*symbol\s*(.+)\<close>\<close>
  "symbolic symbol = fieldGroup # spaces0 # lit symbol @ [spaces0, valueGroup]"

definition patterns :: "(item list \<times> string) list" where
  "patterns =
     [(fieldGroup # spaces1 # lit ''cont'' @ [Atom (Chars [CHR ''e'', CHR 0xE9]) Once None]
         @ lit ''m'' @ [spaces1, valueGroup], ''contains''),
      (fieldGroup # spaces1 # lit ''come'' @ [Atom (Chars [CHR 0xE7, CHR ''c'']) Once None]
         @ lit ''a'' @ spaces1 # lit ''com'' @ [spaces1, valueGroup], ''startswith''),
      (worded [''termina'', ''com''], ''endswith''),
      (worded [''igual'', ''a''], ''eq''),
      (symbolic ''='', ''eq''),
      (worded [''maior'', ''que''], ''gt''),
      (symbolic ''>'', ''gt''),
      (worded [''menor'', ''que''], ''lt''),
      (symbolic ''<'', ''lt''),
      (worded [''maior'', ''ou'', ''igual'', ''a''], ''ge''),
      (symbolic ''>='', ''ge''),
      (worded [''menor'', ''ou'', ''igual'', ''a''], ''le''),
      (symbolic ''<='', ''le''),
      (worded [''diferente'', ''de''], ''ne''),
      (symbolic ''!='', ''ne''),
      (fieldGroup # spaces1 # lit ''ap'' @ [Atom (Chars [CHR 0xF3, CHR ''o'']) Once None]
         @ lit ''s'' @ [spaces1, valueGroup], ''gt''),
      (worded [''antes'', ''de''], ''lt'')]"

fun firstMatch :: "(item list \<times> string) list \<Rightarrow> string \<Rightarrow> (captures \<times> string) option" where
  "firstMatch [] input = None"
| "firstMatch ((regex, operator) # rest) input =
     (case search regex input of
        Some caps \<Rightarrow> Some (caps, operator)
      | None \<Rightarrow> firstMatch rest input)"

definition quote :: string where
  "quote = [CHR 0x27]"

definition stripQuotes :: "string \<Rightarrow> string" where
  "stripQuotes value =
     (if (startsWith value [CHR 0x22] \<and> endsWith value [CHR 0x22])
         \<or> (startsWith value quote \<and> endsWith value quote)
      then substring value 1 (length value - 1)
      else value)"

definition parseFilterInput :: "string \<Rightarrow> error + filter_map" where
  "parseFilterInput input =
     (case firstMatch patterns input of
        None \<Rightarrow> Inl FilterFormat
      | Some (caps, operator) \<Rightarrow>
          (case (group caps 1, group caps 2) of
             (Some g1, Some g2) \<Rightarrow>
               Inr [(trim g1, Cond (Val operator) (stripQuotes (trim g2)))]
           | _ \<Rightarrow> Inl (TypeError ''Cannot read properties of undefined'')))"

definition parseOrderByInput :: "string \<Rightarrow> error + string" where
  "parseOrderByInput input =
     (case search [fieldGroup, spaces1, Alt [''asc'', ''ascendente'', ''crescente'']] input of
        Some caps \<Rightarrow>
          (case group caps 1 of
             Some g1 \<Rightarrow> Inr (trim g1 @ '' asc'')
           | None \<Rightarrow> Inl (TypeError ''Cannot read properties of undefined''))
      | None \<Rightarrow>
          (case search [fieldGroup, spaces1, Alt [''desc'', ''descendente'', ''decrescente'']] input of
             Some caps \<Rightarrow>
               (case group caps 1 of
                  Some g1 \<Rightarrow> Inr (trim g1 @ '' desc'')
                | None \<Rightarrow> Inl (TypeError ''Cannot read properties of undefined''))
           | None \<Rightarrow>
               (let field = trim input
                in if field \<noteq> [] \<and> list_all (cmatch Word) field
                   then Inr (field @ '' asc'')
                   else Inl OrderByFormat)))"

section \<open>Query assistant: the filter builder\<close>

definition comparisonOperators :: "string list" where
  "comparisonOperators = [''eq'', ''ne'', ''gt'', ''lt'', ''ge'', ''le'']"

definition stringOperators :: "string list" where
  "stringOperators = [''contains'', ''startswith'', ''endswith'']"

fun filterPart :: "string \<Rightarrow> filterInfo \<Rightarrow> string option" where
  \<comment> \<open>The \<open>switch\<close> on the operator; \<open>None\<close> is the \<open>default\<close> branch, which warns and
     continues. A plain string has no \<open>operator\<close>, so it takes that branch too.\<close>
  "filterPart field (Cond (Val operator) value) =
     (if operator \<in> set comparisonOperators
      then Some (field @ '' '' @ operator @ '' '' @ quote @ value @ quote)
      else if operator \<in> set stringOperators
      then Some (operator @ ''('' @ field @ '', '' @ quote @ value @ quote @ '')'')
      else None)"
| "filterPart field (Cond (ProtoMember m) value) = None"
| "filterPart field (Raw s) = None"

fun infoText :: "filterInfo \<Rightarrow> string" where
  \<comment> \<open>The entry inside a template literal.\<close>
  "infoText (Raw s) = s"
| "infoText (Cond operator value) = ''[object Object]''"

definition idField :: "string \<Rightarrow> string" where
  "idField entity = (if endsWith entity ''s'' then butlast entity else entity) @ ''id''"

fun collectParts :: "string \<Rightarrow> filter_map \<Rightarrow> string list \<Rightarrow> string list" where
  \<comment> \<open>The loop over \<open>Object.entries(filters)\<close>; the last argument is \<open>filterParts\<close>.\<close>
  "collectParts entity [] filterParts = filterParts"
| "collectParts entity ((field, filterInfo) # rest) filterParts =
     (if field = ''id''
      then collectParts entity rest (filterParts @ [idField entity @ '' eq '' @ infoText filterInfo])
      else case filterPart field filterInfo of
             None \<Rightarrow> collectParts entity rest filterParts
           | Some part \<Rightarrow> collectParts entity rest (filterParts @ [part]))"

definition buildODataFilter :: "string \<Rightarrow> filter_map \<Rightarrow> string" where
  \<comment> \<open>A filter object is the list of its entries in the order of \<open>Object.entries\<close>.\<close>
  "buildODataFilter entity filters =
     (if filters = [] then [] else join '' and '' (collectParts entity filters []))"

text \<open>
  The filter builder as the specification words it, on the specification's own data. A
  filter map has two kinds of entry: the pseudo-field \<open>id\<close> holding the id of a record, and
  a parsed filter entry, a field with an operator and a raw value. Each entry is rendered on
  its own, an entry with an operator outside the two sets renders to nothing, and the
  rendered clauses are joined with \<open>and\<close>. The singular of an entity name is the name
  without one trailing \<open>s\<close>, the plural-to-singular heuristic of the specification.
\<close>

datatype spec_entry =
  IdEquals string                  \<comment> \<open>the key \<open>id\<close> with the id of a record\<close>
| Compare string string string     \<comment> \<open>a field, with an operator and a raw value\<close>

fun stored :: "spec_entry \<Rightarrow> string \<times> filterInfo" where
  \<comment> \<open>The entry of the code's filter object that holds an entry of the specification.\<close>
  "stored (IdEquals v) = (''id'', Raw v)"
| "stored (Compare field operator v) = (field, Cond (Val operator) v)"

fun plainField :: "spec_entry \<Rightarrow> bool" where
  \<comment> \<open>The key \<open>id\<close> is the pseudo-field, never the field of a comparison.\<close>
  "plainField (IdEquals v) = True"
| "plainField (Compare field operator v) = (field \<noteq> ''id'')"

definition spec_singular :: "string \<Rightarrow> string" where
  "spec_singular name =
     (case rev name of
        [] \<Rightarrow> name
      | c # front \<Rightarrow> if c = CHR ''s'' then rev front else name)"

definition spec_comparison :: "string \<Rightarrow> string \<Rightarrow> string \<Rightarrow> string option" where
  "spec_comparison field operator v =
     (if operator \<in> {''eq'', ''ne'', ''gt'', ''lt'', ''ge'', ''le''}
      then Some (field @ '' '' @ operator @ '' '' @ [CHR 0x27] @ v @ [CHR 0x27])
      else if operator \<in> {''contains'', ''startswith'', ''endswith''}
      then Some (operator @ ''('' @ field @ '', '' @ [CHR 0x27] @ v @ [CHR 0x27] @ '')'')
      else None)"

fun spec_render :: "string \<Rightarrow> spec_entry \<Rightarrow> string option" where
  "spec_render name (IdEquals v) = Some (spec_singular name @ ''id eq '' @ v)"
| "spec_render name (Compare field operator v) = spec_comparison field operator v"

fun spec_join :: "string list \<Rightarrow> string" where
  "spec_join [] = []"
| "spec_join (clause # clauses) = clause @ concat (map (\<lambda>c. '' and '' @ c) clauses)"

definition spec_filter :: "string \<Rightarrow> spec_entry list \<Rightarrow> string" where
  "spec_filter name entries = spec_join (List.map_filter (spec_render name) entries)"


section \<open>Numbers from text\<close>

definition digitOf :: "nat \<Rightarrow> char \<Rightarrow> nat option" where
  \<comment> \<open>The value of a digit in radix 10 or 16.\<close>
  "digitOf radix c =
     (case map_of (zip ''0123456789'' [0, 1, 2, 3, 4, 5, 6, 7, 8, 9]) c of
        Some d \<Rightarrow> Some d
      | None \<Rightarrow>
          if radix = 16
          then map_of (zip ''abcdefABCDEF'' [10, 11, 12, 13, 14, 15, 10, 11, 12, 13, 14, 15]) c
          else None)"

definition parseInt :: "string \<Rightarrow> int option" where
  \<comment> \<open>\<open>parseInt(s)\<close> without a radix: leading white space, a sign, \<open>0x\<close> for hexadecimal,
     then the longest run of digits; \<open>None\<close> is \<open>NaN\<close>. The value is the integer the digits
     write; the code holds it in a double, which is that integer up to \<open>2^53\<close> and the
     nearest double, in the end \<open>Infinity\<close>, beyond.\<close>
  "parseInt s =
     (let s1 = dropWhile isWhiteSpace s;
          negative = startsWith s1 ''-'' \<and> s1 \<noteq> [];
          s2 = (if (startsWith s1 ''-'' \<or> startsWith s1 ''+'') \<and> s1 \<noteq> [] then tl s1 else s1);
          hex = (take 2 s2 = ''0x'' \<or> take 2 s2 = ''0X'');
          radix = (if hex then 16 else 10);
          s3 = (if hex then drop 2 s2 else s2);
          ds = takeWhile (\<lambda>c. digitOf radix c \<noteq> None) s3
      in if ds = [] then None
         else Some ((if negative then - 1 else 1)
                * foldl (\<lambda>acc c. acc * int radix
                                 + (case digitOf radix c of Some d \<Rightarrow> int d | None \<Rightarrow> 0)) 0 ds))"

fun splitOn :: "char \<Rightarrow> string \<Rightarrow> string \<Rightarrow> string list" where
  \<comment> \<open>\<open>s.split(c)\<close> for a one-character separator; the second argument is the piece read so far.\<close>
  "splitOn sep piece [] = [piece]"
| "splitOn sep piece (c # cs) =
     (if c = sep then piece # splitOn sep [] cs else splitOn sep (piece @ [c]) cs)"

section \<open>Query assistant: sessions\<close>

record QuerySession =
  id' :: string
  startTime :: int
  lastActivity :: int
  currentStep :: string
  entity :: "string jsval option"
  action :: "string option"
  filter' :: "filter_map option"
  fields' :: "string list option"
  orderBy :: "string option"
  limit :: "number option"
  expand :: "string list option"
  completed :: bool

type_synonym session_store = "(string \<times> QuerySession) list"

text \<open>
  The messages of the assistant are Portuguese sentences built from the session. The model
  keeps which sentence is sent and the values it is built from.
\<close>

datatype summary =
  IncompleteSummary
| Summary "string jsval" string "filter_map option" "string list option" "string option" "number option"

datatype msg =
  Welcome                          \<comment> \<open>the welcome, asking for the entity\<close>
| SessionNotFound                  \<comment> \<open>session not found or expired; start a new one\<close>
| UnknownStep string               \<comment> \<open>error: unknown step\<close>
| ProcessingError error            \<comment> \<open>error while processing the input, with the error's message\<close>
| EntitySelected "string jsval"    \<comment> \<open>the entity is selected; which action (1 list, 2 get, 3 count)\<close>
| EntityNotRecognized "string jsval"  \<comment> \<open>the entity was not recognized or is not available\<close>
| ActionNotRecognized              \<comment> \<open>action not recognized; the three options again\<close>
| AskRecordId                      \<comment> \<open>details of one record chosen; asks for its id\<close>
| AskFilter string                 \<comment> \<open>listing or counting chosen; asks for a filter\<close>
| FilterNotUnderstood error        \<comment> \<open>the filter could not be read; try again or answer without filter\<close>
| FilterDefined                    \<comment> \<open>filter set; asks for the fields\<close>
| FieldsDefined summary            \<comment> \<open>fields set; the summary; execute? (yes/no)\<close>
| FieldsDefinedForCount summary    \<comment> \<open>fields set (ignored when counting); the summary; execute?\<close>
| FieldsDefinedAskOrder            \<comment> \<open>fields set; asks for the ordering\<close>
| OrderNotUnderstood error         \<comment> \<open>the ordering could not be read; try again or answer default\<close>
| OrderDefined                     \<comment> \<open>ordering set; asks for the limit\<close>
| InvalidLimit                     \<comment> \<open>invalid value; a positive number or default\<close>
| LimitDefined summary             \<comment> \<open>limit set; the summary; execute? (yes/no)\<close>
| QueryExecuted                    \<comment> \<open>the query ran successfully\<close>
| QueryFailed error                \<comment> \<open>error running the query, with the error's message; modify the query? (yes/no)\<close>
| QueryCancelled                   \<comment> \<open>query cancelled; starting again, asks for the entity\<close>
| AnswerNotRecognized              \<comment> \<open>answer not recognized; yes to execute or no to cancel\<close>

datatype query_result =
  Records "crm_record list"
| OneRecord crm_record
| CountResult nat "string jsval" string

record reply =
  reply_message :: msg
  reply_completed :: bool
  reply_result :: "query_result option"

definition say :: "msg \<Rightarrow> reply" where
  \<comment> \<open>\<open>{ message, completed: false }\<close>\<close>
  "say m = \<lparr> reply_message = m, reply_completed = False, reply_result = None \<rparr>"

definition sessionExpirationMinutes :: int where
  "sessionExpirationMinutes = 30"

definition entityMappings :: "(string \<times> string) list" where
  "entityMappings =
     [(''conta'', ''accounts''), (''contas'', ''accounts''), (''account'', ''accounts''),
      (''accounts'', ''accounts''), (''contato'', ''contacts''), (''contatos'', ''contacts''),
      (''contact'', ''contacts''), (''contacts'', ''contacts''), (''caso'', ''incidents''),
      (''casos'', ''incidents''), (''case'', ''incidents''), (''cases'', ''incidents''),
      (''incidents'', ''incidents''), (''oportunidade'', ''opportunities''),
      (''oportunidades'', ''opportunities''), (''opportunity'', ''opportunities''),
      (''opportunities'', ''opportunities''), (''lead'', ''leads''), (''leads'', ''leads''),
      (''atividade'', ''activities''), (''atividades'', ''activities''),
      (''activity'', ''activities''), (''activities'', ''activities'')]"

definition startSession :: "int \<Rightarrow> string \<Rightarrow> session_store \<Rightarrow> (string \<times> msg) \<times> session_store" where
  \<comment> \<open>\<open>now\<close> is \<open>Date.now()\<close>, \<open>suffix\<close> the random part of the session id.\<close>
  "startSession now suffix sessions =
     (let sessionId = ''query-'' @ showInt now @ ''-'' @ suffix;
          session = \<lparr> id' = sessionId, startTime = now, lastActivity = now,
                      currentStep = ''entity'', entity = None, action = None, filter' = None,
                      fields' = None, orderBy = None, limit = None, expand = None,
                      completed = False \<rparr>
      in ((sessionId, Welcome), AList.update sessionId session sessions))"

definition resolveEntity :: "string \<Rightarrow> string jsval" where
  \<comment> \<open>\<open>this.entityMappings[normalizedInput] || normalizedInput\<close> for the trimmed, lower-cased input\<close>
  "resolveEntity input =
     (let normalizedInput = toLowerCase (trim input)
      in case rec_get entityMappings normalizedInput of
           Some v \<Rightarrow> if truthy v then v else Val normalizedInput
         | None \<Rightarrow> Val normalizedInput)"

definition validationRequest :: MetadataRequest where
  \<comment> \<open>\<open>{ includeAttributes: false }\<close>\<close>
  "validationRequest =
     \<lparr> req_includeAttributes = Some False, req_includeOptionSets = None,
       req_includeAttributeTypes = None, req_selectEntityProperties = None,
       req_selectAttributeProperties = None \<rparr>"

definition processEntityStep :: "connector \<Rightarrow> QuerySession \<Rightarrow> string \<Rightarrow> reply \<times> QuerySession" where
  "processEntityStep conn session input =
     (let entity = resolveEntity input
      in case getEntityMetadata conn entity validationRequest of
           Inr metadata \<Rightarrow>
             (say (EntitySelected entity), session \<lparr> entity := Some entity, currentStep := ''action'' \<rparr>)
         | Inl err \<Rightarrow> (say (EntityNotRecognized entity), session))"

definition processActionStep :: "QuerySession \<Rightarrow> string \<Rightarrow> reply \<times> QuerySession" where
  "processActionStep session input =
     (let normalizedInput = toLowerCase (trim input);
          chosen =
            (if normalizedInput \<in> set [''1'', ''listar'', ''list'', ''mostrar'', ''exibir'', ''buscar'']
             then Some ''list''
             else if normalizedInput \<in> set [''2'', ''obter'', ''get'', ''detalhar'', ''detalhes'', ''ver'']
             then Some ''get''
             else if normalizedInput \<in> set [''3'', ''contar'', ''count'', ''total'']
             then Some ''count''
             else None)
      in case chosen of
           None \<Rightarrow> (say ActionNotRecognized, session)
         | Some a \<Rightarrow>
             if a = ''get''
             then (say AskRecordId, session \<lparr> action := Some a, currentStep := ''filter'' \<rparr>)
             else (say (AskFilter (if a = ''list'' then ''listar'' else ''contar'')),
                   session \<lparr> action := Some a, currentStep := ''filter'' \<rparr>))"

definition noFilterWords :: "string list" where
  "noFilterWords =
     [''n'' @ [CHR 0xE3] @ ''o'', ''nao'', ''sem filtro'', ''sem'', ''n'', ''no'', ''none'']"

definition processFilterStep :: "QuerySession \<Rightarrow> string \<Rightarrow> reply \<times> QuerySession" where
  "processFilterStep session input =
     (let normalizedInput = toLowerCase (trim input);
          parsed =
            (if normalizedInput \<in> set noFilterWords then Inr []
             else if action session = Some ''get'' then Inr [(''id'', Raw (trim input))]
             else parseFilterInput normalizedInput)
      in case parsed of
           Inl err \<Rightarrow> (say (FilterNotUnderstood err), session)
         | Inr f \<Rightarrow> (say FilterDefined, session \<lparr> filter' := Some f, currentStep := ''fields'' \<rparr>))"

definition buildQuerySummary :: "QuerySession \<Rightarrow> summary" where
  \<comment> \<open>Which lines the summary has: the filter when it has entries, the fields when there are
     some (otherwise the word for all), ordering and limit for a listing when set.\<close>
  "buildQuerySummary session =
     (case (entity session, action session) of
        (Some e, Some a) \<Rightarrow>
          if \<not> truthy e \<or> a = [] then IncompleteSummary
          else Summary e a
                 (case filter' session of Some f \<Rightarrow> if f \<noteq> [] then Some f else None | None \<Rightarrow> None)
                 (case fields' session of Some fs \<Rightarrow> if fs \<noteq> [] then Some fs else None | None \<Rightarrow> None)
                 (if a = ''list''
                  then (case orderBy session of Some ob \<Rightarrow> if ob \<noteq> [] then Some ob else None | None \<Rightarrow> None)
                  else None)
                 (if a = ''list''
                  then (case limit session of Some n \<Rightarrow> if n \<noteq> 0 then Some n else None | None \<Rightarrow> None)
                  else None)
      | _ \<Rightarrow> IncompleteSummary)"

definition processFieldsStep :: "QuerySession \<Rightarrow> string \<Rightarrow> reply \<times> QuerySession" where
  "processFieldsStep session input =
     (let normalizedInput = toLowerCase (trim input);
          session1 =
            (if normalizedInput \<in> set [''todos'', ''all'', ''tudo'', ''*'']
             then session \<lparr> fields' := None \<rparr>
             else session \<lparr> fields' :=
                    Some (filter (\<lambda>field. field \<noteq> []) (map trim (splitOn (CHR '','') [] normalizedInput))) \<rparr>)
      in if action session1 = Some ''get''
         then (let session2 = session1 \<lparr> currentStep := ''confirm'' \<rparr>
               in (say (FieldsDefined (buildQuerySummary session2)), session2))
         else if action session1 = Some ''count''
         then (let session2 = session1 \<lparr> currentStep := ''confirm'' \<rparr>
               in (say (FieldsDefinedForCount (buildQuerySummary session2)), session2))
         else (say FieldsDefinedAskOrder, session1 \<lparr> currentStep := ''orderBy'' \<rparr>))"

definition defaultWords :: "string list" where
  "defaultWords =
     [''padr'' @ [CHR 0xE3] @ ''o'', ''padrao'', ''default'', ''sem'', ''n'' @ [CHR 0xE3] @ ''o'', ''nao'']"

definition processOrderByStep :: "QuerySession \<Rightarrow> string \<Rightarrow> reply \<times> QuerySession" where
  "processOrderByStep session input =
     (let normalizedInput = toLowerCase (trim input);
          parsed =
            (if normalizedInput \<in> set defaultWords then Inr ''createdon desc''
             else parseOrderByInput normalizedInput)
      in case parsed of
           Inl err \<Rightarrow> (say (OrderNotUnderstood err), session)
         | Inr ob \<Rightarrow> (say OrderDefined, session \<lparr> orderBy := Some ob, currentStep := ''limit'' \<rparr>))"

definition processLimitStep :: "QuerySession \<Rightarrow> string \<Rightarrow> reply \<times> QuerySession" where
  "processLimitStep session input =
     (let normalizedInput = toLowerCase (trim input);
          parsed =
            (if normalizedInput \<in> set defaultWords then Some 50
             else (case parseInt normalizedInput of
                     None \<Rightarrow> None
                   | Some n \<Rightarrow> if n \<le> 0 then None else Some n))
      in case parsed of
           None \<Rightarrow> (say InvalidLimit, session)
         | Some n \<Rightarrow>
             (let session1 = session \<lparr> limit := Some n, currentStep := ''confirm'' \<rparr>
              in (say (LimitDefined (buildQuerySummary session1)), session1)))"

definition buildSessionFilter :: "string jsval \<Rightarrow> filter_map \<Rightarrow> error + string" where
  \<comment> \<open>\<open>buildODataFilter(session.entity, ...)\<close> as \<open>executeQuery\<close> calls it. The entity is a
     string unless the entity step read an inherited member from \<open>entityMappings\<close>; such a
     value has no \<open>endsWith\<close>, which the builder calls for the key \<open>id\<close> only.\<close>
  "buildSessionFilter e f =
     (case e of
        Val name \<Rightarrow> Inr (buildODataFilter name f)
      | ProtoMember m \<Rightarrow>
          if ''id'' \<in> set (map fst f) then Inl (TypeError ''entity.endsWith is not a function'')
          else Inr (buildODataFilter [] f))"

definition orUndefined :: "string \<Rightarrow> string option" where
  \<comment> \<open>\<open>filter || undefined\<close>\<close>
  "orUndefined s = (if s = [] then None else Some s)"

definition executeQuery :: "connector \<Rightarrow> QuerySession \<Rightarrow> error + query_result" where
  "executeQuery conn session =
     (case (entity session, action session) of
        (Some e, Some a) \<Rightarrow>
          if \<not> truthy e \<or> a = [] then Inl IncompleteParameters
          else
            (case buildSessionFilter e (case filter' session of Some f \<Rightarrow> f | None \<Rightarrow> []) of
               Inl err \<Rightarrow> Inl err
             | Inr flt \<Rightarrow>
                 if a = ''list'' then
                   (case queryEntities conn e
                           \<lparr> q_filter = orUndefined flt, q_select = fields' session,
                             q_orderBy = orderBy session, q_top = limit session \<rparr> of
                      Inl m \<Rightarrow> Inl (ConnectorError m)
                    | Inr rs \<Rightarrow> Inr (Records rs))
                 else if a = ''get'' then
                   (case queryEntities conn e
                           \<lparr> q_filter = orUndefined flt, q_select = fields' session,
                             q_orderBy = None, q_top = Some 1 \<rparr> of
                      Inl m \<Rightarrow> Inl (ConnectorError m)
                    | Inr results \<Rightarrow>
                        (case results of [] \<Rightarrow> Inl NoRecordFound | r # rest \<Rightarrow> Inr (OneRecord r)))
                 else if a = ''count'' then
                   (case queryEntities conn e
                           \<lparr> q_filter = orUndefined flt, q_select = Some [''createdon''],
                             q_orderBy = None, q_top = Some 1000 \<rparr> of
                      Inl m \<Rightarrow> Inl (ConnectorError m)
                    | Inr countResults \<Rightarrow> Inr (CountResult (length countResults) e flt))
                 else Inl (UnsupportedAction a))
      | _ \<Rightarrow> Inl IncompleteParameters)"

definition yesWords :: "string list" where
  "yesWords = [''sim'', ''yes'', ''s'', ''y'', ''confirmar'', ''executar'', ''ok'']"

definition cancelWords :: "string list" where
  "cancelWords = [''n'' @ [CHR 0xE3] @ ''o'', ''nao'', ''no'', ''n'', ''cancelar'', ''cancel'']"

definition processConfirmStep :: "connector \<Rightarrow> QuerySession \<Rightarrow> string \<Rightarrow> reply \<times> QuerySession" where
  "processConfirmStep conn session input =
     (let normalizedInput = toLowerCase (trim input)
      in if normalizedInput \<in> set yesWords then
           (case executeQuery conn session of
              Inr r \<Rightarrow>
                (\<lparr> reply_message = QueryExecuted, reply_completed = True, reply_result = Some r \<rparr>,
                 session \<lparr> completed := True \<rparr>)
            | Inl err \<Rightarrow> (say (QueryFailed err), session))
         else if normalizedInput \<in> set cancelWords then
           (say QueryCancelled,
            session \<lparr> currentStep := ''entity'', entity := None, action := None, filter' := None,
                      fields' := None, orderBy := None, limit := None \<rparr>)
         else (say AnswerNotRecognized, session))"

definition processStep :: "connector \<Rightarrow> QuerySession \<Rightarrow> string \<Rightarrow> error + reply \<times> QuerySession" where
  \<comment> \<open>The \<open>switch\<close> on the current step inside the \<open>try\<close> block. Every step handles its own
     exceptions, so each branch returns.\<close>
  "processStep conn session input =
     (if currentStep session = ''entity'' then Inr (processEntityStep conn session input)
      else if currentStep session = ''action'' then Inr (processActionStep session input)
      else if currentStep session = ''filter'' then Inr (processFilterStep session input)
      else if currentStep session = ''fields'' then Inr (processFieldsStep session input)
      else if currentStep session = ''orderBy'' then Inr (processOrderByStep session input)
      else if currentStep session = ''limit'' then Inr (processLimitStep session input)
      else if currentStep session = ''confirm'' then Inr (processConfirmStep conn session input)
      else Inr (say (UnknownStep (currentStep session)), session))"

definition processInput ::
  "connector \<Rightarrow> int \<Rightarrow> string \<Rightarrow> string \<Rightarrow> session_store \<Rightarrow> reply \<times> session_store" where
  \<comment> \<open>The session object is updated in place; the model writes it back under its id.\<close>
  "processInput conn now sessionId input sessions =
     (case map_of sessions sessionId of
        None \<Rightarrow> (say SessionNotFound, sessions)
      | Some found \<Rightarrow>
          (let session = found \<lparr> lastActivity := now \<rparr>
           in case processStep conn session input of
                Inr (r, session') \<Rightarrow> (r, AList.update sessionId session' sessions)
              | Inl err \<Rightarrow> (say (ProcessingError err), AList.update sessionId session sessions)))"

definition isExpired :: "int \<Rightarrow> QuerySession \<Rightarrow> bool" where
  \<comment> \<open>\<open>now.getTime() > lastActivityTime + sessionExpirationMinutes * 60 * 1000\<close>\<close>
  "isExpired now session = (now > lastActivity session + sessionExpirationMinutes * 60 * 1000)"

definition cleanupExpiredSessions :: "int \<Rightarrow> session_store \<Rightarrow> session_store" where
  \<comment> \<open>The loop over the entries of the map, deleting the expired ones by key.\<close>
  "cleanupExpiredSessions now sessions =
     fold (\<lambda>(sessionId, session) store.
             if isExpired now session then AList.delete sessionId store else store)
          sessions sessions"

definition getSession :: "string \<Rightarrow> session_store \<Rightarrow> QuerySession option" where
  "getSession sessionId sessions = map_of sessions sessionId"

definition endSession :: "string \<Rightarrow> session_store \<Rightarrow> bool \<times> session_store" where
  "endSession sessionId sessions =
     (map_of sessions sessionId \<noteq> None, AList.delete sessionId sessions)"

fun processInputs ::
  "connector \<Rightarrow> string \<Rightarrow> (int \<times> string) list \<Rightarrow> session_store \<Rightarrow> reply list \<times> session_store" where
  \<comment> \<open>Successive calls of \<open>processInput\<close> on one session, each with its time and its input;
     the replies are returned in order.\<close>
  "processInputs conn sessionId [] sessions = ([], sessions)"
| "processInputs conn sessionId ((now, input) # later) sessions =
     (case processInput conn now sessionId input sessions of
        (r, sessions1) \<Rightarrow>
          (case processInputs conn sessionId later sessions1 of
             (rs, sessions2) \<Rightarrow> (r # rs, sessions2)))"

definition defaultWord :: string where
  \<comment> \<open>the word for the default, with a-tilde\<close>
  "defaultWord = ''padr'' @ [CHR 0xE3] @ ''o''"

definition fullWalk :: "string \<Rightarrow> string list" where
  \<comment> \<open>The inputs of a complete listing: the entity, then the fixed answers.\<close>
  "fullWalk entityInput =
     [entityInput, ''1'', ''sem filtro'', ''todos'', defaultWord, defaultWord, ''sim'']"

definition defaultListOptions :: QueryOptions where
  \<comment> \<open>The query options of a listing with no filter, all fields, default order and limit.\<close>
  "defaultListOptions =
     \<lparr> q_filter = None, q_select = None, q_orderBy = Some ''createdon desc'', q_top = Some 50 \<rparr>"

section \<open>Natural-language queries: lexicon\<close>

definition entityMappingsNL :: "(string \<times> string) list" where
  \<comment> \<open>\<open>entityMappings\<close> of the natural-language service\<close>
  "entityMappingsNL =
     [(''conta'', ''accounts''), (''contas'', ''accounts''), (''account'', ''accounts''),
      (''accounts'', ''accounts''), (''contato'', ''contacts''), (''contatos'', ''contacts''),
      (''contact'', ''contacts''), (''contacts'', ''contacts''), (''caso'', ''incidents''),
      (''casos'', ''incidents''), (''case'', ''incidents''), (''cases'', ''incidents''),
      (''incidents'', ''incidents''), (''oportunidade'', ''opportunities''),
      (''oportunidades'', ''opportunities''), (''opportunity'', ''opportunities''),
      (''opportunities'', ''opportunities''), (''lead'', ''leads''), (''leads'', ''leads''),
      (''atividade'', ''activities''), (''atividades'', ''activities''),
      (''activity'', ''activities''), (''activities'', ''activities''),
      (''tarefa'', ''tasks''), (''tarefas'', ''tasks''), (''task'', ''tasks''), (''tasks'', ''tasks''),
      (''email'', ''emails''), (''emails'', ''emails''),
      (''reuni'' @ [CHR 0xE3] @ ''o'', ''appointments''),
      (''reuni'' @ [CHR 0xF5] @ ''es'', ''appointments''),
      (''appointment'', ''appointments''), (''appointments'', ''appointments''),
      (''telefone'', ''phonecalls''), (''chamada'', ''phonecalls''), (''chamadas'', ''phonecalls''),
      (''phonecall'', ''phonecalls''), (''phonecalls'', ''phonecalls'')]"

definition actionMappings :: "(string \<times> string) list" where
  "actionMappings =
     [(''mostrar'', ''list''), (''listar'', ''list''), (''exibir'', ''list''), (''buscar'', ''list''),
      (''encontrar'', ''list''), (''pesquisar'', ''list''), (''procurar'', ''list''),
      (''obter'', ''get''), (''pegar'', ''get''), (''detalhar'', ''get''), (''detalhes'', ''get''),
      (''criar'', ''create''), (''adicionar'', ''create''), (''novo'', ''create''), (''nova'', ''create''),
      (''atualizar'', ''update''), (''modificar'', ''update''), (''editar'', ''update''),
      (''alterar'', ''update''),
      (''deletar'', ''delete''), (''excluir'', ''delete''), (''remover'', ''delete''),
      (''apagar'', ''delete'')]"

definition fieldMappings :: "(string \<times> (string \<times> string) list) list" where
  "fieldMappings =
     [(''accounts'',
       [(''nome'', ''name''), (''email'', ''emailaddress1''), (''telefone'', ''telephone1''),
        (''site'', ''websiteurl''), (''website'', ''websiteurl''),
        (''endere'' @ [CHR 0xE7] @ ''o'', ''address1_composite''), (''cidade'', ''address1_city''),
        (''estado'', ''address1_stateorprovince''), (''pa'' @ [CHR 0xED] @ ''s'', ''address1_country''),
        (''cep'', ''address1_postalcode''), (''receita'', ''revenue''),
        (''funcion'' @ [CHR 0xE1] @ ''rios'', ''numberofemployees''), (''setor'', ''industrycode''),
        (''tipo'', ''accountcategorycode''), (''dono'', ''_ownerid_value''),
        (''propriet'' @ [CHR 0xE1] @ ''rio'', ''_ownerid_value''), (''criado'', ''createdon''),
        (''modificado'', ''modifiedon'')]),
      (''contacts'',
       [(''nome'', ''firstname''), (''sobrenome'', ''lastname''), (''email'', ''emailaddress1''),
        (''telefone'', ''telephone1''), (''celular'', ''mobilephone''), (''cargo'', ''jobtitle''),
        (''departamento'', ''department''), (''conta'', ''_parentcustomerid_value''),
        (''empresa'', ''_parentcustomerid_value''),
        (''endere'' @ [CHR 0xE7] @ ''o'', ''address1_composite''), (''cidade'', ''address1_city''),
        (''estado'', ''address1_stateorprovince''), (''pa'' @ [CHR 0xED] @ ''s'', ''address1_country''),
        (''cep'', ''address1_postalcode''), (''dono'', ''_ownerid_value''),
        (''propriet'' @ [CHR 0xE1] @ ''rio'', ''_ownerid_value''), (''criado'', ''createdon''),
        (''modificado'', ''modifiedon'')]),
      (''incidents'',
       [(''t'' @ [CHR 0xED] @ ''tulo'', ''title''), (''assunto'', ''title''),
        (''descri'' @ [CHR 0xE7, CHR 0xE3] @ ''o'', ''description''),
        (''cliente'', ''_customerid_value''), (''status'', ''statuscode''),
        (''prioridade'', ''prioritycode''), (''origem'', ''caseorigincode''),
        (''tipo'', ''casetypecode''), (''dono'', ''_ownerid_value''),
        (''propriet'' @ [CHR 0xE1] @ ''rio'', ''_ownerid_value''), (''criado'', ''createdon''),
        (''modificado'', ''modifiedon''), (''resolvido'', ''resolvedon'')])]"

definition operatorMappings :: "(string \<times> string) list" where
  "operatorMappings =
     [(''igual'', ''eq''), (''igual a'', ''eq''), (''='', ''eq''), (''=='', ''eq''),
      (''diferente'', ''ne''), (''diferente de'', ''ne''), (''!='', ''ne''), (''<>'', ''ne''),
      (''maior'', ''gt''), (''maior que'', ''gt''), (''>'', ''gt''),
      (''menor'', ''lt''), (''menor que'', ''lt''), (''<'', ''lt''),
      (''maior ou igual'', ''ge''), (''maior ou igual a'', ''ge''), (''>='', ''ge''),
      (''menor ou igual'', ''le''), (''menor ou igual a'', ''le''), (''<='', ''le''),
      (''cont'' @ [CHR 0xE9] @ ''m'', ''contains''), (''contem'', ''contains''),
      (''inicia com'', ''startswith''), (''come'' @ [CHR 0xE7] @ ''a com'', ''startswith''),
      (''termina com'', ''endswith'')]"

definition stopWords :: "string list" where
  "stopWords =
     [''o'', ''a'', ''os'', ''as'', ''um'', ''uma'', ''uns'', ''umas'', ''de'', ''do'', ''da'', ''dos'',
      ''das'', ''no'', ''na'', ''nos'', ''nas'', ''ao'', ''aos'', [CHR 0xE0], [CHR 0xE0] @ ''s'',
      ''pelo'', ''pela'', ''pelos'', ''pelas'', ''com'', ''para'', ''por'', ''em'', ''sobre'', ''sob'',
      ''entre'', ''que'', ''quem'', ''qual'', ''quais'', ''quando'', ''onde'', ''como'', ''e'', ''ou'',
      ''mas'', ''porem'', ''todavia'', ''entretanto'', ''contudo'']"

definition limitWords :: "string list" where
  "limitWords = [''top'', ''limite'', ''limitar'', ''limitado'', ''maximo'', ''max'']"

section \<open>Natural-language queries: text\<close>

definition accented :: string where
  "accented =
     [CHR 0xC0, CHR 0xC1, CHR 0xC2, CHR 0xC3, CHR 0xC4, CHR 0xC5, CHR 0xC7,
      CHR 0xC8, CHR 0xC9, CHR 0xCA, CHR 0xCB, CHR 0xCC, CHR 0xCD, CHR 0xCE, CHR 0xCF,
      CHR 0xD1, CHR 0xD2, CHR 0xD3, CHR 0xD4, CHR 0xD5, CHR 0xD6,
      CHR 0xD9, CHR 0xDA, CHR 0xDB, CHR 0xDC, CHR 0xDD,
      CHR 0xE0, CHR 0xE1, CHR 0xE2, CHR 0xE3, CHR 0xE4, CHR 0xE5, CHR 0xE7,
      CHR 0xE8, CHR 0xE9, CHR 0xEA, CHR 0xEB, CHR 0xEC, CHR 0xED, CHR 0xEE, CHR 0xEF,
      CHR 0xF1, CHR 0xF2, CHR 0xF3, CHR 0xF4, CHR 0xF5, CHR 0xF6,
      CHR 0xF9, CHR 0xFA, CHR 0xFB, CHR 0xFC, CHR 0xFD, CHR 0xFF]"

definition unaccented :: string where
  "unaccented = ''AAAAAACEEEEIIIINOOOOOUUUUYaaaaaaceeeeiiiinooooouuuuyy''"

definition baseChar :: "char \<Rightarrow> char" where
  \<comment> \<open>The base letter left when the canonical decomposition of a character loses its
     combining marks (\<open>normalize('NFD')\<close>, then the marks \<open>U+0300\<close> to \<open>U+036F\<close> removed).\<close>
  "baseChar c = (case map_of (zip accented unaccented) c of Some b \<Rightarrow> b | None \<Rightarrow> c)"

definition normalizeText :: "string \<Rightarrow> string" where
  "normalizeText text = toLowerCase (map baseChar text)"

function splitWhitespace :: "string \<Rightarrow> string \<Rightarrow> string list" where
  \<comment> \<open>\<open>s.split(/\s+/)\<close>; the first argument is the piece read so far.\<close>
  "splitWhitespace piece [] = [piece]"
| "splitWhitespace piece (c # cs) =
     (if isWhiteSpace c then piece # splitWhitespace [] (dropWhile isWhiteSpace cs)
      else splitWhitespace (piece @ [c]) cs)"
  by pat_completeness auto
termination
  by (relation "measure (\<lambda>(piece, s). length s)") (auto simp: length_dropWhile_le less_Suc_eq_le)

function splitRegex :: "item list \<Rightarrow> string \<Rightarrow> string \<Rightarrow> string list" where
  \<comment> \<open>\<open>s.split(separator)\<close> for a separator that matches no empty string: at each position
     the separator is tried; where it matches, the piece read so far ends.\<close>
  "splitRegex sep piece [] = [piece]"
| "splitRegex sep piece (c # cs) =
     (case run sep (c # cs) [] of
        Some (caps, rest) \<Rightarrow>
          if length rest \<le> length cs then piece # splitRegex sep [] rest
          else splitRegex sep (piece @ [c]) cs
      | None \<Rightarrow> splitRegex sep (piece @ [c]) cs)"
  by pat_completeness auto
termination
  by (relation "measure (\<lambda>(sep, piece, s). length s)") auto

section \<open>Natural-language queries: the parser\<close>

definition decimalValue :: "string \<Rightarrow> int" where
  "decimalValue s = foldl (\<lambda>acc c. acc * 10 + (case digitOf 10 c of Some d \<Rightarrow> int d | None \<Rightarrow> 0)) 0 s"

definition isArrayIndex :: "string \<Rightarrow> bool" where
  \<comment> \<open>A key that is the canonical text of an integer below \<open>2^32 - 1\<close>.\<close>
  "isArrayIndex key =
     (key \<noteq> [] \<and> list_all (\<lambda>c. digitOf 10 c \<noteq> None) key
      \<and> (key = ''0'' \<or> take 1 key \<noteq> ''0'') \<and> decimalValue key < 4294967295)"

fun insertIndex :: "string \<Rightarrow> 'a \<Rightarrow> (string \<times> 'a) list \<Rightarrow> (string \<times> 'a) list" where
  "insertIndex key v [] = [(key, v)]"
| "insertIndex key v ((k, x) # rest) =
     (if isArrayIndex k \<and> decimalValue k < decimalValue key
      then (k, x) # insertIndex key v rest
      else (key, v) # (k, x) # rest)"

definition setProperty :: "string \<Rightarrow> 'a \<Rightarrow> (string \<times> 'a) list \<Rightarrow> (string \<times> 'a) list" where
  \<comment> \<open>\<open>obj[key] = v\<close> on an object kept as the list of its own entries in the order of
     \<open>Object.entries\<close>: integer keys first, in ascending order, then the others in the order
     of their creation. Assigning to \<open>__proto__\<close> sets the prototype and creates no entry.\<close>
  "setProperty key v obj =
     (if key = ''__proto__'' then obj
      else if key \<in> set (map fst obj) then AList.update key v obj
      else if isArrayIndex key then insertIndex key v obj
      else obj @ [(key, v)])"

record ParsedQuery =
  entityOf :: "string jsval option"
  actionOf :: "string jsval option"
  filters :: filter_map
  fieldsOf :: "string list option"
  limitOf :: "number option"

definition known :: "(string \<times> string) list \<Rightarrow> string \<Rightarrow> bool" where
  \<comment> \<open>\<open>table[word]\<close> is truthy\<close>
  "known table word = (case rec_get table word of Some v \<Rightarrow> truthy v | None \<Rightarrow> False)"

definition limitAfter :: "string \<Rightarrow> string list \<Rightarrow> number option" where
  \<comment> \<open>The limit rule: a limit word that is not the last word, followed by a word that
     \<open>parseInt\<close> reads as a positive number.\<close>
  "limitAfter word rest =
     (if word \<in> set limitWords \<and> rest \<noteq> []
      then (case parseInt (hd rest) of
              Some limitValue \<Rightarrow> if limitValue > 0 then Some limitValue else None
            | None \<Rightarrow> None)
      else None)"

function scan :: "string list \<Rightarrow> ParsedQuery \<Rightarrow> ParsedQuery" where
  \<comment> \<open>The \<open>for\<close> loop over the words, from the word at the current index on.\<close>
  "scan [] result = result"
| "scan (word # rest) result =
     (if actionOf result = None \<and> known actionMappings word
      then scan rest (result \<lparr> actionOf := rec_get actionMappings word \<rparr>)
      else if entityOf result = None \<and> known entityMappingsNL word
      then scan rest (result \<lparr> entityOf := rec_get entityMappingsNL word \<rparr>)
      else case limitAfter word rest of
             Some limitValue \<Rightarrow> scan (tl rest) (result \<lparr> limitOf := Some limitValue \<rparr>)
           | None \<Rightarrow>
              (case rest of
                 potentialOperator # potentialValue # rest' \<Rightarrow>
                   (case rec_get operatorMappings potentialOperator of
                      Some operator \<Rightarrow>
                        if truthy operator
                        then scan rest' (result \<lparr> filters :=
                               setProperty word (Cond operator potentialValue) (filters result) \<rparr>)
                        else scan rest result
                    | None \<Rightarrow> scan rest result)
               | _ \<Rightarrow> scan rest result))"
  by pat_completeness auto
termination
  by (relation "measure (\<lambda>(ws, r). length ws)") auto

definition keptWords :: "string \<Rightarrow> string list" where
  \<comment> \<open>\<open>query.split(/\s+/).filter(word => word && !stopWords.includes(word))\<close>\<close>
  "keptWords query = filter (\<lambda>word. word \<noteq> [] \<and> word \<notin> set stopWords) (splitWhitespace [] query)"

definition parseQuery :: "string \<Rightarrow> ParsedQuery" where
  "parseQuery query =
     (let result1 = scan (keptWords query)
            \<lparr> entityOf = None, actionOf = None, filters = [], fieldsOf = None, limitOf = None \<rparr>;
          result2 = (if actionOf result1 = None then result1 \<lparr> actionOf := Some (Val ''list'') \<rparr>
                     else result1)
      in case search (lit ''campos'' @ [spaces1, Atom (NotChars ''.'') Many1 (Some 1)]) query of
           Some caps \<Rightarrow>
             (case group caps 1 of
                Some g1 \<Rightarrow>
                  if g1 \<noteq> []
                  then result2 \<lparr> fieldsOf := Some (splitRegex [spaces0, Atom (Chars '','') Once None, spaces0] [] g1) \<rparr>
                  else result2
              | None \<Rightarrow> result2)
         | None \<Rightarrow> result2)"

section \<open>Natural-language queries: execution\<close>

text \<open>
  \<open>fieldMappings[entity]\<close> is a read on an object literal, so an entity named like a member
  of \<open>Object.prototype\<close> finds that member, and \<open>fieldMappings[entity][field]\<close> is then a
  read on a built-in object. The properties of the built-in objects are those of
  ECMAScript 2022, the target of the project: \<open>constructor\<close> is the function \<open>Object\<close>,
  \<open>__proto__\<close> is \<open>Object.prototype\<close> itself, every other member is a built-in method. A
  built-in function has its own \<open>length\<close> and \<open>name\<close>, then the properties of
  \<open>Function.prototype\<close>, whose \<open>caller\<close> and \<open>arguments\<close> throw when read, then those of
  \<open>Object.prototype\<close>.
\<close>

definition objectStatics :: "string list" where
  \<comment> \<open>the own methods of the function \<open>Object\<close>\<close>
  "objectStatics =
     [''assign'', ''getOwnPropertyDescriptor'', ''getOwnPropertyDescriptors'',
      ''getOwnPropertyNames'', ''getOwnPropertySymbols'', ''hasOwn'', ''is'',
      ''preventExtensions'', ''seal'', ''create'', ''defineProperties'', ''defineProperty'',
      ''freeze'', ''getPrototypeOf'', ''setPrototypeOf'', ''isExtensible'', ''isFrozen'',
      ''isSealed'', ''keys'', ''entries'', ''fromEntries'', ''values'']"

definition nativeText :: "string \<Rightarrow> string" where
  \<comment> \<open>a built-in function inside a template literal\<close>
  "nativeText name = ''function '' @ name @ ''() { [native code] }''"

definition lengthText :: "string \<Rightarrow> string option" where
  \<comment> \<open>the \<open>length\<close> of the member when it is not \<open>0\<close>: \<open>Object\<close> and most methods take one
     argument, the two definers take two, the three conversions none\<close>
  "lengthText m =
     (if m \<in> {''__defineGetter__'', ''__defineSetter__''} then Some ''2''
      else if m \<in> {''toString'', ''valueOf'', ''toLocaleString''} then None
      else Some ''1'')"

definition memberProperty :: "string \<Rightarrow> string \<Rightarrow> error + string option" where
  \<comment> \<open>\<open>member[field]\<close> for the member \<open>m\<close> of \<open>Object.prototype\<close>: the text of the value when
     it is truthy, \<open>None\<close> when it is \<open>undefined\<close>, \<open>null\<close> or \<open>0\<close>.\<close>
  "memberProperty m field =
     (if m = ''__proto__''
      then (if field = ''__proto__'' then Inr None
            else if field \<in> set objectPrototypeMembers then Inr (Some (to_str (ProtoMember field)))
            else Inr None)
      else if field = ''length''
      then Inr (lengthText m)
      else if field = ''name''
      then Inr (Some (if m = ''constructor'' then ''Object'' else m))
      else if m = ''constructor'' \<and> field = ''prototype''
      then Inr (Some ''[object Object]'')
      else if m = ''constructor'' \<and> field \<in> set objectStatics
      then Inr (Some (nativeText field))
      else if field \<in> {''caller'', ''arguments''}
      then Inl (TypeError ''caller and arguments may not be accessed on strict mode functions'')
      else if field \<in> {''apply'', ''bind'', ''call'', ''toString''}
      then Inr (Some (nativeText field))
      else if field = ''constructor''
      then Inr (Some (nativeText ''Function''))
      else if field = ''__proto__''
      then Inr (Some (nativeText []))
      else if field \<in> set objectPrototypeMembers
      then Inr (Some (nativeText field))
      else Inr None)"

definition mapFieldName :: "string jsval \<Rightarrow> string \<Rightarrow> error + string jsval" where
  \<comment> \<open>A value read from a built-in object is kept as its text, the one thing the callers
     use.\<close>
  "mapFieldName e field =
     (case rec_get fieldMappings (to_str e) of
        Some (Val table) \<Rightarrow>
          (case rec_get table field of
             Some v \<Rightarrow> Inr (if truthy v then v else Val field)
           | None \<Rightarrow> Inr (Val field))
      | Some (ProtoMember m) \<Rightarrow>
          (case memberProperty m field of
             Inl err \<Rightarrow> Inl err
           | Inr (Some text) \<Rightarrow> Inr (Val text)
           | Inr None \<Rightarrow> Inr (Val field))
      | None \<Rightarrow> Inr (Val field))"

fun collectPartsNL :: "string jsval \<Rightarrow> filter_map \<Rightarrow> string list \<Rightarrow> error + string list" where
  "collectPartsNL e [] filterParts = Inr filterParts"
| "collectPartsNL e ((field, filterInfo) # rest) filterParts =
     (case mapFieldName e field of
        Inl err \<Rightarrow> Inl err
      | Inr mappedField \<Rightarrow>
          (case filterPart (to_str mappedField) filterInfo of
             None \<Rightarrow> collectPartsNL e rest filterParts
           | Some part \<Rightarrow> collectPartsNL e rest (filterParts @ [part])))"

definition buildODataFilterNL :: "string jsval \<Rightarrow> filter_map \<Rightarrow> error + string" where
  \<comment> \<open>\<open>buildODataFilter\<close> of the natural-language service\<close>
  "buildODataFilterNL e fs =
     (if fs = [] then Inr []
      else case collectPartsNL e fs [] of
             Inl err \<Rightarrow> Inl err
           | Inr filterParts \<Rightarrow> Inr (join '' and '' filterParts))"

text \<open>
  The builder of the natural-language service in the words of the specification: every
  entity has its table from the words for a field to the name of the field, a field without
  an entry in the table keeps its name, and the comparisons are rendered on the translated
  names and joined. There is no pseudo-field here: a comparison is a field, an operator and
  a raw value.
\<close>

definition spec_translate :: "string \<Rightarrow> string \<Rightarrow> string" where
  "spec_translate name field =
     (case map_of fieldMappings name of
        None \<Rightarrow> field
      | Some table \<Rightarrow> (case map_of table field of None \<Rightarrow> field | Some api \<Rightarrow> api))"

definition storedNL :: "string \<times> string \<times> string \<Rightarrow> string \<times> filterInfo" where
  \<comment> \<open>The entry of the code's filter object that holds a comparison.\<close>
  "storedNL c = (case c of (field, operator, v) \<Rightarrow> (field, Cond (Val operator) v))"

definition spec_filter_translated :: "string \<Rightarrow> (string \<times> string \<times> string) list \<Rightarrow> string" where
  "spec_filter_translated name comparisons =
     spec_join
       (List.map_filter
          (\<lambda>(field, operator, v). spec_comparison (spec_translate name field) operator v)
          comparisons)"

fun mapNames :: "string jsval \<Rightarrow> string list \<Rightarrow> error + string list" where
  \<comment> \<open>\<open>fields.map(field => this.mapFieldName(entity, field.trim()))\<close>, the mapped names as the
     text the connector joins them into\<close>
  "mapNames e [] = Inr []"
| "mapNames e (field # rest) =
     (case mapFieldName e (trim field) of
        Inl err \<Rightarrow> Inl err
      | Inr mapped \<Rightarrow>
          (case mapNames e rest of
             Inl err \<Rightarrow> Inl err
           | Inr names \<Rightarrow> Inr (to_str mapped # names)))"

definition mapFields :: "string jsval \<Rightarrow> string list option \<Rightarrow> error + string list option" where
  "mapFields e fs =
     (case fs of
        None \<Rightarrow> Inr None
      | Some names \<Rightarrow>
          if names = [] then Inr None
          else (case mapNames e names of
                  Inl err \<Rightarrow> Inl err
                | Inr mapped \<Rightarrow> Inr (Some mapped)))"

datatype nl_message =
  EntityNotIdentified          \<comment> \<open>the entity of the query could not be identified\<close>
| CreateNotSupported           \<comment> \<open>creating records by a natural-language query is not supported yet\<close>
| UpdateNotSupported           \<comment> \<open>updating records by a natural-language query is not supported yet\<close>
| DeleteNotSupported           \<comment> \<open>deleting records by a natural-language query is not supported yet\<close>
| NoRecordForFilter            \<comment> \<open>no record found with the given filters\<close>
| QueryProcessingError error   \<comment> \<open>error while processing the query, with the error's message\<close>

datatype nl_response =
  Failure nl_message string
    \<comment> \<open>\<open>{ success: false, message, query }\<close>\<close>
| ListResult "string jsval" nat "crm_record list" string "string list option"
    \<comment> \<open>\<open>{ success: true, entity, count, results, filter, fields }\<close>\<close>
| GetNotFound "string jsval" nl_message string
    \<comment> \<open>\<open>{ success: false, entity, message, filter }\<close>\<close>
| GetResult "string jsval" crm_record string
    \<comment> \<open>\<open>{ success: true, entity, result, filter }\<close>\<close>

fun success :: "nl_response \<Rightarrow> bool" where
  "success (Failure m q) = False"
| "success (ListResult e n rs f fs) = True"
| "success (GetNotFound e m f) = False"
| "success (GetResult e r f) = True"

fun messageOf :: "nl_response \<Rightarrow> nl_message option" where
  "messageOf (Failure m q) = Some m"
| "messageOf (ListResult e n rs f fs) = None"
| "messageOf (GetNotFound e m f) = Some m"
| "messageOf (GetResult e r f) = None"

definition executeListQuery ::
  "connector \<Rightarrow> string jsval \<Rightarrow> filter_map \<Rightarrow> string list option \<Rightarrow> number option
     \<Rightarrow> (error + nl_response) \<times> conn_call list" where
  "executeListQuery conn e fs flds lim =
     (case buildODataFilterNL e fs of
        Inl err \<Rightarrow> (Inl err, [])
      | Inr odataFilter \<Rightarrow>
          (case mapFields e flds of
             Inl err \<Rightarrow> (Inl err, [])
           | Inr selectFields \<Rightarrow>
               (let opts = \<lparr> q_filter = orUndefined odataFilter, q_select = selectFields,
                             q_orderBy = Some ''createdon desc'',
                             q_top = Some (case lim of Some n \<Rightarrow> if n = 0 then 50 else n
                                                     | None \<Rightarrow> 50) \<rparr>
                in case queryEntities conn e opts of
                     Inl m \<Rightarrow> (Inl (ConnectorError m), [QueryEntitiesCall e opts])
                   | Inr results \<Rightarrow>
                       (Inr (ListResult e (length results) results odataFilter selectFields),
                        [QueryEntitiesCall e opts]))))"

definition executeGetQuery ::
  "connector \<Rightarrow> string jsval \<Rightarrow> filter_map \<Rightarrow> (error + nl_response) \<times> conn_call list" where
  "executeGetQuery conn e fs =
     (if fs = [] then (Inl GetNeedsFilter, [])
      else
        (case buildODataFilterNL e fs of
           Inl err \<Rightarrow> (Inl err, [])
         | Inr odataFilter \<Rightarrow>
             (let opts = \<lparr> q_filter = Some odataFilter, q_select = None, q_orderBy = None,
                           q_top = Some 1 \<rparr>
              in case queryEntities conn e opts of
                   Inl m \<Rightarrow> (Inl (ConnectorError m), [QueryEntitiesCall e opts])
                 | Inr results \<Rightarrow>
                     (case results of
                        [] \<Rightarrow> (Inr (GetNotFound e NoRecordForFilter odataFilter),
                               [QueryEntitiesCall e opts])
                      | r # rest \<Rightarrow> (Inr (GetResult e r odataFilter), [QueryEntitiesCall e opts])))))"

definition entityDetected :: "ParsedQuery \<Rightarrow> bool" where
  \<comment> \<open>the negation of \<open>!entity\<close>\<close>
  "entityDetected parsed = (case entityOf parsed of Some e \<Rightarrow> truthy e | None \<Rightarrow> False)"

definition processQuery :: "connector \<Rightarrow> string \<Rightarrow> nl_response \<times> conn_call list" where
  \<comment> \<open>The response and the connector calls made on the way.\<close>
  "processQuery conn query =
     (let normalizedQuery = normalizeText query;
          parsed = parseQuery normalizedQuery;
          list = executeListQuery conn (case entityOf parsed of Some e \<Rightarrow> e | None \<Rightarrow> Val [])
                   (filters parsed) (fieldsOf parsed) (limitOf parsed);
          outcome =
            (if \<not> entityDetected parsed
             then (Inr (Failure EntityNotIdentified normalizedQuery), [])
             else if actionOf parsed = Some (Val ''list'') then list
             else if actionOf parsed = Some (Val ''get'')
             then executeGetQuery conn (case entityOf parsed of Some e \<Rightarrow> e | None \<Rightarrow> Val [])
                    (filters parsed)
             else if actionOf parsed = Some (Val ''create'')
             then (Inr (Failure CreateNotSupported normalizedQuery), [])
             else if actionOf parsed = Some (Val ''update'')
             then (Inr (Failure UpdateNotSupported normalizedQuery), [])
             else if actionOf parsed = Some (Val ''delete'')
             then (Inr (Failure DeleteNotSupported normalizedQuery), [])
             else list)
      in case outcome of
           (Inr response, calls) \<Rightarrow> (response, calls)
         | (Inl err, calls) \<Rightarrow> (Failure (QueryProcessingError err) query, calls))"

section \<open>Sample data\<close>

definition sampleRawAttribute :: RawAttribute where
  "sampleRawAttribute =
     \<lparr> attr_LogicalName = Some ''name'', attr_SchemaName = Some ''Name'',
       attr_DisplayNameLabel = Some ''Nome'', attr_AttributeType = Some ''String'',
       attr_DescriptionLabel = None, attr_RequiredLevelValue = Some ''ApplicationRequired'',
       attr_IsPrimaryId = None, attr_IsPrimaryName = Some True, attr_MaxLength = Some 100,
       attr_MinValue = None, attr_MaxValue = None, attr_Precision = None,
       attr_OptionSet = None \<rparr>"

definition sampleRawEntity :: RawEntity where
  "sampleRawEntity =
     \<lparr> ent_LogicalName = Some ''account'', ent_SchemaName = Some ''Account'',
       ent_DisplayNameLabel = Some ''Conta'', ent_DisplayCollectionNameLabel = None,
       ent_EntitySetName = Some ''accounts'', ent_DescriptionLabel = None,
       ent_PrimaryIdAttribute = Some ''accountid'', ent_PrimaryNameAttribute = Some ''name'',
       ent_IsCustomEntity = None, ent_Attributes = Some [sampleRawAttribute],
       ent_ManyToOneRelationships = None, ent_OneToManyRelationships = None,
       ent_ManyToManyRelationships = None \<rparr>"

definition sampleRecord :: crm_record where
  "sampleRecord = [(''incidentid'', ''case-001''), (''title'', ''Problema de login'')]"

definition sampleConnector :: connector where
  \<comment> \<open>A connector that knows every entity and answers every query with one record.\<close>
  "sampleConnector =
     \<lparr> getEntityMetadata = (\<lambda>entityName request. Inr (Some sampleRawEntity)),
       queryEntities = (\<lambda>entityName opts. Inr [sampleRecord]) \<rparr>"

definition failingConnector :: connector where
  \<comment> \<open>A connector whose every call throws.\<close>
  "failingConnector =
     \<lparr> getEntityMetadata = (\<lambda>entityName request. Inl ''Request failed with status code 404''),
       queryEntities = (\<lambda>entityName opts. Inl ''Request failed with status code 500'') \<rparr>"

definition bareEntry :: MetadataEntity where
  \<comment> \<open>An entry as the entity-list refresh leaves it: no attributes, no relationships.\<close>
  "bareEntry =
     \<lparr> entName = Some ''account'', entDisplayName = Some ''Conta'',
       displayCollectionName = Some ''Contas'', entDescription = None,
       primaryIdField = Some ''accountid'', primaryNameField = Some ''name'',
       isCustomEntity = Some False, attributes = [], relationships = [] \<rparr>"

definition bareCacheState :: meta_state where
  "bareCacheState =
     \<lparr> cache = \<lparr> entities = [(''account'', bareEntry)], lastUpdated = 1000 \<rparr>, meta_calls = [] \<rparr>"

definition attributeOptions :: EntityDetailsOptions where
  "attributeOptions =
     \<lparr> includeAttributes = Some True, includeOptionSets = None, includeAttributeTypes = None,
       selectEntityProperties = None, selectAttributeProperties = None, refresh = None \<rparr>"

definition confirmSession :: QuerySession where
  \<comment> \<open>A session that has collected a listing of cases and waits for the confirmation.\<close>
  "confirmSession =
     \<lparr> id' = ''query-1000-k3j9x2a'', startTime = 1000, lastActivity = 5000,
       currentStep = ''confirm'', entity = Some (Val ''incidents''), action = Some ''list'',
       filter' = Some [(''title'', Cond (Val ''contains'') ''login'')], fields' = Some [''title''],
       orderBy = Some ''createdon desc'', limit = Some 10, expand = None, completed = False \<rparr>"

definition staleSession :: QuerySession where
  \<comment> \<open>A fresh session last used at time 0.\<close>
  "staleSession =
     \<lparr> id' = ''query-0-aaaaaaa'', startTime = 0, lastActivity = 0,
       currentStep = ''entity'', entity = None, action = None, filter' = None, fields' = None,
       orderBy = None, limit = None, expand = None, completed = False \<rparr>"

definition sampleStore :: session_store where
  "sampleStore = [(''query-0-aaaaaaa'', staleSession), (''query-1000-k3j9x2a'', confirmSession)]"

section \<open>Properties of the metadata cache\<close>

lemma rec_get_own: "map_of table key = Some v \<Longrightarrow> rec_get table key = Some (Val v)"
  by (simp add: rec_get_def)

lemma rec_get_update_same: "rec_get (AList.update key v table) key = Some (Val v)"
  by (simp add: rec_get_def update_conv')

lemma normalized_key_not_proto: "to_str (normalizeEntityName x) \<noteq> ''__proto__''"
proof (cases "rec_get commonMappings (toLowerCase x)")
  case None
  then have "toLowerCase x \<notin> set objectPrototypeMembers"
    by (auto simp: rec_get_def split: option.splits if_splits)
  with None show ?thesis
    by (auto simp: normalizeEntityName_def objectPrototypeMembers_def)
next
  case (Some v)
  show ?thesis
  proof (cases v)
    case (Val s)
    with Some have "map_of commonMappings (toLowerCase x) = Some s"
      by (auto simp: rec_get_def split: option.splits if_splits)
    then have "(toLowerCase x, s) \<in> set commonMappings"
      by (rule map_of_SomeD)
    then have "s \<noteq> ''__proto__'' \<and> s \<noteq> []"
      by (auto simp: commonMappings_def)
    with Some Val show ?thesis
      by (simp add: normalizeEntityName_def)
  next
    case (ProtoMember m)
    with Some show ?thesis
      by (simp add: normalizeEntityName_def)
  qed
qed

lemma loadedEntry_attributes:
  "attributes (loadedEntry opts md custom) =
     (case ent_Attributes md of
        Some attrs \<Rightarrow> if isTrue (includeAttributes opts) then map (mapAttribute opts) attrs else []
      | None \<Rightarrow> [])"
  by (simp add: loadedEntry_def Let_def split: option.splits)

lemma getEntityDetails_partial_unfold:
  assumes own: "map_of (entities (cache st)) (to_str (normalizeEntityName name)) = Some e"
    and empty: "attributes e = []"
    and wanted: "includeAttributes opts = Some True"
  shows "getEntityDetails conn now name opts st =
     (case loadEntityDetails conn now (normalizeEntityName name) opts st of
        (Inl err, st1) \<Rightarrow> (Inl (DetailsFailed name err), st1)
      | (Inr u, st1) \<Rightarrow>
          (case rec_get (entities (cache st1)) (to_str (normalizeEntityName name)) of
             None \<Rightarrow> (Inl (DetailsFailed name (NotInCacheAfterLoad name (normalizeEntityName name))), st1)
           | Some found \<Rightarrow> (Inr found, st1)))"
proof -
  have "rec_get (entities (cache st)) (to_str (normalizeEntityName name)) = Some (Val e)"
    using own by (rule rec_get_own)
  then have "\<not> hasAttributes (rec_get (entities (cache st)) (to_str (normalizeEntityName name)))"
    using empty by (simp add: hasAttributes_def)
  then show ?thesis
    using wanted by (simp add: getEntityDetails_def Let_def isTrue_def split: prod.splits sum.splits)
qed

text \<open>
  C1. When \<open>getEntityDetails\<close> is asked for attributes and the cache holds an entry for the
  normalized entity name whose attribute list is empty, the call asks the connector for the
  entity's metadata (with attributes) before it returns. If the connector returns a schema
  document, the record returned is the one rebuilt from that document, with one attribute
  for each attribute of the document, so it has attributes whenever the connector returned
  some. The call succeeds only when the connector returned a document: the incomplete cached
  record is never handed back on its own.
\<close>

theorem getEntityDetails_reloads_partial_entry:
  assumes own: "map_of (entities (cache st)) (to_str (normalizeEntityName name)) = Some e"
    and empty: "attributes e = []"
    and wanted: "includeAttributes opts = Some True"
  shows "meta_calls (snd (getEntityDetails conn now name opts st)) =
           meta_calls st @ [GetEntityMetadataCall (normalizeEntityName name) (metadataRequest opts)]
       \<and> req_includeAttributes (metadataRequest opts) = Some True
       \<and> (\<forall>md attrs custom.
            getEntityMetadata conn (normalizeEntityName name) (metadataRequest opts) = Inr (Some md)
            \<and> customEntityFlag (ent_IsCustomEntity md) = Inr custom
            \<and> ent_Attributes md = Some attrs
            \<longrightarrow> fst (getEntityDetails conn now name opts st) = Inr (Val (loadedEntry opts md custom))
              \<and> attributes (loadedEntry opts md custom) = map (mapAttribute opts) attrs
              \<and> (attrs \<noteq> [] \<longrightarrow> attributes (loadedEntry opts md custom) \<noteq> []))
       \<and> (\<forall>found. fst (getEntityDetails conn now name opts st) = Inr found
            \<longrightarrow> (\<exists>md custom.
                  getEntityMetadata conn (normalizeEntityName name) (metadataRequest opts) = Inr (Some md)
                  \<and> found = Val (loadedEntry opts md custom)))"
proof -
  let ?n = "normalizeEntityName name"
  note unfold = getEntityDetails_partial_unfold [OF own empty wanted, of conn now]
  have calls: "meta_calls (snd (getEntityDetails conn now name opts st)) =
      meta_calls st @ [GetEntityMetadataCall ?n (metadataRequest opts)]"
    unfolding unfold
    by (simp add: loadEntityDetails_def Let_def rec_get_update_same split: sum.splits option.splits)
  have req: "req_includeAttributes (metadataRequest opts) = Some True"
    using wanted by (simp add: metadataRequest_def)
  have ok: "fst (getEntityDetails conn now name opts st) = Inr (Val (loadedEntry opts md custom))
        \<and> attributes (loadedEntry opts md custom) = map (mapAttribute opts) attrs
        \<and> (attrs \<noteq> [] \<longrightarrow> attributes (loadedEntry opts md custom) \<noteq> [])"
    if "getEntityMetadata conn ?n (metadataRequest opts) = Inr (Some md)"
      and "customEntityFlag (ent_IsCustomEntity md) = Inr custom"
      and "ent_Attributes md = Some attrs" for md attrs custom
    using that wanted unfolding unfold
    by (simp add: loadEntityDetails_def Let_def rec_get_update_same loadedEntry_attributes isTrue_def)
  have fetched: "\<exists>md custom. getEntityMetadata conn ?n (metadataRequest opts) = Inr (Some md)
        \<and> found = Val (loadedEntry opts md custom)"
    if "fst (getEntityDetails conn now name opts st) = Inr found" for found
    using that unfolding unfold
    by (auto simp: loadEntityDetails_def Let_def rec_get_update_same split: sum.splits option.splits)
  from calls req ok fetched show ?thesis by blast
qed

theorem getEntityDetails_reloads_partial_entry_witness:
  "fst (getEntityDetails sampleConnector 2000 ''Accounts'' attributeOptions bareCacheState)
     = Inr (Val (loadedEntry attributeOptions sampleRawEntity (Some False)))
   \<and> attributes (loadedEntry attributeOptions sampleRawEntity (Some False)) \<noteq> []
   \<and> meta_calls (snd (getEntityDetails sampleConnector 2000 ''Accounts'' attributeOptions bareCacheState))
     = [GetEntityMetadataCall (Val ''account'') (metadataRequest attributeOptions)]"
proof -
  have n: "normalizeEntityName ''Accounts'' = Val ''account''"
    by (simp add: normalizeEntityName_def rec_get_def commonMappings_def toLowerCase_def
        lowerChar_def upperLetters_def lowerLetters_def)
  have own: "map_of (entities (cache bareCacheState)) (to_str (normalizeEntityName ''Accounts'')) = Some bareEntry"
    by (simp add: n bareCacheState_def)
  have empty: "attributes bareEntry = []"
    by (simp add: bareEntry_def)
  have wanted: "includeAttributes attributeOptions = Some True"
    by (simp add: attributeOptions_def)
  have md: "getEntityMetadata sampleConnector (Val ''account'') (metadataRequest attributeOptions)
      = Inr (Some sampleRawEntity)"
    by (simp add: sampleConnector_def)
  have flag: "customEntityFlag (ent_IsCustomEntity sampleRawEntity) = Inr (Some False)"
    by (simp add: customEntityFlag_def sampleRawEntity_def)
  have attrs: "ent_Attributes sampleRawEntity = Some [sampleRawAttribute]"
    by (simp add: sampleRawEntity_def)
  show ?thesis
    using getEntityDetails_reloads_partial_entry [OF own empty wanted, of sampleConnector 2000]
      md flag attrs
    by (simp add: n bareCacheState_def)
qed

text \<open>
  C3. The claim has the normalization strip one trailing \<open>s\<close> from a name that is not in the
  synonym table, so that \<open>emails\<close> would become \<open>email\<close>. The code computes the stripped name
  and then returns the lower-cased input: \<open>emails\<close> stays \<open>emails\<close>.
\<close>

theorem normalizeEntityName_keeps_plural:
  "normalizeEntityName ''emails'' = Val ''emails''"
  by (simp add: normalizeEntityName_def rec_get_def commonMappings_def toLowerCase_def
      lowerChar_def upperLetters_def lowerLetters_def objectPrototypeMembers_def)

lemma normalizeEntityName_unlisted:
  assumes "map_of commonMappings (toLowerCase x) = None"
    and "toLowerCase x \<notin> set objectPrototypeMembers"
  shows "normalizeEntityName x = Val (toLowerCase x)"
  using assms by (simp add: normalizeEntityName_def rec_get_def)

lemma normalizeEntityName_on_keys:
  "normalizeEntityName ''account'' = Val ''account''"
  "normalizeEntityName ''accounts'' = Val ''account''"
  "normalizeEntityName ''contact'' = Val ''contact''"
  "normalizeEntityName ''contacts'' = Val ''contact''"
  "normalizeEntityName ''opportunity'' = Val ''opportunity''"
  "normalizeEntityName ''opportunities'' = Val ''opportunity''"
  "normalizeEntityName ''lead'' = Val ''lead''"
  "normalizeEntityName ''leads'' = Val ''lead''"
  "normalizeEntityName ''case'' = Val ''incident''"
  "normalizeEntityName ''cases'' = Val ''incident''"
  "normalizeEntityName ''incident'' = Val ''incident''"
  "normalizeEntityName ''incidents'' = Val ''incident''"
  "normalizeEntityName ''activity'' = Val ''activity''"
  "normalizeEntityName ''activities'' = Val ''activity''"
  by (simp_all add: normalizeEntityName_def rec_get_def commonMappings_def toLowerCase_def
      lowerChar_def upperLetters_def lowerLetters_def)

text \<open>
  C9. On the keys of the synonym table the normalization is idempotent: a key is sent to a
  name that the normalization leaves as it is. \<open>cases\<close> and \<open>case\<close> both become \<open>incident\<close>.
\<close>

theorem normalizeEntityName_idempotent_on_table:
  "(\<forall>x \<in> set (map fst commonMappings).
      \<exists>y. normalizeEntityName x = Val y \<and> normalizeEntityName y = normalizeEntityName x)
   \<and> normalizeEntityName ''cases'' = Val ''incident''
   \<and> normalizeEntityName ''case'' = Val ''incident''"
proof -
  have keys: "set (map fst commonMappings) =
      {''account'', ''accounts'', ''contact'', ''contacts'', ''opportunity'', ''opportunities'',
       ''lead'', ''leads'', ''case'', ''cases'', ''incident'', ''incidents'', ''activity'',
       ''activities''}"
    by (simp add: commonMappings_def)
  show ?thesis
    unfolding keys by (simp add: normalizeEntityName_on_keys)
qed

theorem normalizeEntityName_idempotent_on_table_witness:
  "\<exists>y. normalizeEntityName ''opportunities'' = Val y
     \<and> normalizeEntityName y = normalizeEntityName ''opportunities''"
proof -
  have "''opportunities'' \<in> set (map fst commonMappings)"
    by (simp add: commonMappings_def)
  with normalizeEntityName_idempotent_on_table show ?thesis
    by blast
qed

section \<open>Properties of the filter phrases and the filter builder\<close>

subsection \<open>The matcher succeeds exactly on the strings its pattern accepts\<close>

lemma run_accepts:
  "(run items s caps \<noteq> None) = accepts items s"
  "lo \<le> k \<Longrightarrow> (backtrack c g r k lo s' caps' \<noteq> None) = (\<exists>j. lo \<le> j \<and> j \<le> k \<and> accepts r (drop j s'))"
  "(alternatives ws r' s'' caps'' \<noteq> None)
     = (\<exists>w \<in> set ws. startsWithIgnoreCase s'' w \<and> accepts r' (drop (length w) s''))"
proof (induction items s caps and c g r k lo s' caps' and ws r' s'' caps''
    rule: run_backtrack_alternatives.induct)
  case (1 s caps)
  show ?case by simp
next
  case (2 c g r s caps)
  then show ?case by (cases s) auto
next
  case (3 c g r s caps)
  then show ?case by simp
next
  case (4 c g r s caps)
  show ?case
  proof (cases "takeWhile (cmatch c) s = []")
    case True
    then show ?thesis by simp
  next
    case False
    then have "1 \<le> length (takeWhile (cmatch c) s)"
      by (cases "takeWhile (cmatch c) s") simp_all
    with False "4.IH" show ?thesis
      by (auto simp: Suc_le_eq)
  qed
next
  case (5 ws r s caps)
  then show ?case by simp
next
  case (6 c g r k lo s caps)
  show ?case
  proof (cases "run r (drop k s) (capture g (take k s) caps)")
    case (Some m)
    with "6.IH"(1) have "accepts r (drop k s)" by simp
    with Some "6.prems" show ?thesis by auto
  next
    case None
    with "6.IH"(1) have no: "\<not> accepts r (drop k s)" by simp
    show ?thesis
    proof (cases "lo < k")
      case True
      then have "lo \<le> k - 1" by simp
      from "6.IH"(2) [OF None True this]
      have "(backtrack c g r (k - 1) lo s caps \<noteq> None)
          = (\<exists>j. lo \<le> j \<and> j \<le> k - 1 \<and> accepts r (drop j s))" .
      moreover have "(\<exists>j. lo \<le> j \<and> j \<le> k - 1 \<and> accepts r (drop j s))
          = (\<exists>j. lo \<le> j \<and> j \<le> k \<and> accepts r (drop j s))"
      proof
        assume "\<exists>j. lo \<le> j \<and> j \<le> k - 1 \<and> accepts r (drop j s)"
        then show "\<exists>j. lo \<le> j \<and> j \<le> k \<and> accepts r (drop j s)"
          by (meson diff_le_self le_trans)
      next
        assume "\<exists>j. lo \<le> j \<and> j \<le> k \<and> accepts r (drop j s)"
        then obtain j where j: "lo \<le> j" "j \<le> k" "accepts r (drop j s)" by blast
        with no have "j \<noteq> k" by auto
        with j have "j \<le> k - 1" by simp
        with j show "\<exists>j. lo \<le> j \<and> j \<le> k - 1 \<and> accepts r (drop j s)" by blast
      qed
      ultimately show ?thesis using None True by simp
    next
      case False
      with "6.prems" have "lo = k" by simp
      with None no show ?thesis by auto
    qed
  qed
next
  case (7 r s caps)
  show ?case by simp
next
  case (8 w ws r s caps)
  show ?case
  proof (cases "startsWithIgnoreCase s w")
    case False
    with "8.IH"(3) show ?thesis by simp
  next
    case True
    show ?thesis
    proof (cases "run r (drop (length w) s) caps")
      case None
      with True "8.IH"(1,2) show ?thesis by auto
    next
      case (Some m)
      with True "8.IH"(1) show ?thesis by auto
    qed
  qed
qed

lemma search_accepts:
  "(search re s \<noteq> None) = (\<exists>i. i \<le> length s \<and> accepts re (drop i s))"
proof (induction s)
  case Nil
  have "(run re [] [] \<noteq> None) = accepts re []" by (rule run_accepts(1))
  then show ?case by (auto split: option.splits)
next
  case (Cons x xs)
  have here: "(run re (x # xs) [] \<noteq> None) = accepts re (x # xs)" by (rule run_accepts(1))
  show ?case
  proof (cases "run re (x # xs) []")
    case (Some m)
    with here have "accepts re (drop 0 (x # xs))" by simp
    then have "\<exists>i. i \<le> length (x # xs) \<and> accepts re (drop i (x # xs))" by blast
    with Some show ?thesis by (auto split: prod.splits)
  next
    case None
    with here have no: "\<not> accepts re (x # xs)" by simp
    have "(\<exists>i. i \<le> length (x # xs) \<and> accepts re (drop i (x # xs)))
        = (\<exists>i. i \<le> length xs \<and> accepts re (drop i xs))"
    proof
      assume "\<exists>i. i \<le> length (x # xs) \<and> accepts re (drop i (x # xs))"
      then obtain i where i: "i \<le> length (x # xs)" "accepts re (drop i (x # xs))" by blast
      with no obtain i' where "i = Suc i'" by (cases i) auto
      with i show "\<exists>i. i \<le> length xs \<and> accepts re (drop i xs)" by auto
    next
      assume "\<exists>i. i \<le> length xs \<and> accepts re (drop i xs)"
      then obtain i where "i \<le> length xs" "accepts re (drop i xs)" by blast
      then have "Suc i \<le> length (x # xs) \<and> accepts re (drop (Suc i) (x # xs))" by simp
      then show "\<exists>i. i \<le> length (x # xs) \<and> accepts re (drop i (x # xs))" by blast
    qed
    with None Cons.IH show ?thesis by simp
  qed
qed

subsection \<open>Patterns that an earlier pattern of the bank always precedes\<close>

lemma accepts_lit:
  "accepts (lit w @ r) s = (startsWithIgnoreCase s w \<and> accepts r (drop (length w) s))"
proof (induction w arbitrary: s)
  case Nil
  show ?case by (simp add: lit_def startsWithIgnoreCase_def)
next
  case (Cons c w)
  have step: "lit (c # w) @ r = Atom (Chars [c]) Once None # (lit w @ r)"
    by (simp add: lit_def)
  show ?case
  proof (cases s)
    case Nil
    then show ?thesis by (simp add: step startsWithIgnoreCase_def)
  next
    case (Cons x xs)
    have "lit w @ r = lit w @ r" ..
    from Cons.IH [of xs] Cons show ?thesis
      unfolding step
      by (auto simp: startsWithIgnoreCase_def Cons.IH)
  qed
qed

lemma accepts_value:
  "accepts [valueGroup] s = (s \<noteq> [] \<and> cmatch AnyChar (hd s))"
proof (cases s)
  case Nil
  then show ?thesis by (simp add: valueGroup_def)
next
  case (Cons x xs)
  show ?thesis
  proof (cases "cmatch AnyChar x")
    case True
    then have "0 < (1::nat) \<and> 1 \<le> length (takeWhile (cmatch AnyChar) (x # xs))"
      by simp
    then have "accepts [valueGroup] (x # xs)"
      unfolding valueGroup_def accepts.simps by blast
    with True Cons show ?thesis by simp
  next
    case False
    then have "takeWhile (cmatch AnyChar) (x # xs) = []" by simp
    then have "\<not> accepts [valueGroup] (x # xs)"
      unfolding valueGroup_def accepts.simps by simp
    with False Cons show ?thesis by simp
  qed
qed

lemma equals_is_a_value_start:
  assumes "startsWithIgnoreCase v ''=''"
  shows "accepts [spaces0, valueGroup] v"
proof -
  from assms obtain x xs where v: "v = x # xs" and x: "canon x = canon (CHR ''='')"
    by (cases v) (auto simp: startsWithIgnoreCase_def)
  have "canon (CHR ''='') = CHR ''=''"
    by (simp add: canon_def lowerLetters_def upperLetters_def)
  moreover have "canon (CHR 0x0A) = CHR 0x0A" "canon (CHR 0x0D) = CHR 0x0D"
    by (simp_all add: canon_def lowerLetters_def upperLetters_def)
  ultimately have "x \<noteq> CHR 0x0A \<and> x \<noteq> CHR 0x0D"
    using x by auto
  then have "accepts [valueGroup] (drop 0 v)"
    by (simp add: accepts_value v)
  then have "\<exists>k. k \<le> length (takeWhile (cmatch Space) v) \<and> accepts [valueGroup] (drop k v)"
    by (intro exI [of _ 0]) simp
  then show ?thesis
    by (simp add: spaces0_def)
qed

lemma symbolic_shadow:
  assumes "accepts (symbolic (symbol @ ''='')) t"
  shows "accepts (symbolic symbol) t"
proof -
  have long: "symbolic (symbol @ ''='') = fieldGroup # spaces0 # (lit symbol @ (lit ''='' @ [spaces0, valueGroup]))"
    by (simp add: symbolic_def lit_def)
  have short: "symbolic symbol = fieldGroup # spaces0 # (lit symbol @ [spaces0, valueGroup])"
    by (simp add: symbolic_def)
  from assms obtain k1 where k1: "0 < k1" "k1 \<le> length (takeWhile (cmatch Word) t)"
    and a1: "accepts (spaces0 # (lit symbol @ (lit ''='' @ [spaces0, valueGroup]))) (drop k1 t)"
    unfolding long fieldGroup_def by auto
  from a1 obtain k2 where k2: "k2 \<le> length (takeWhile (cmatch Space) (drop k1 t))"
    and a2: "accepts (lit symbol @ (lit ''='' @ [spaces0, valueGroup])) (drop k2 (drop k1 t))"
    unfolding spaces0_def by auto
  let ?u = "drop k2 (drop k1 t)"
  from a2 have s: "startsWithIgnoreCase ?u symbol"
    and a3: "accepts (lit ''='' @ [spaces0, valueGroup]) (drop (length symbol) ?u)"
    by (simp_all add: accepts_lit)
  from a3 have "startsWithIgnoreCase (drop (length symbol) ?u) ''=''"
    by (simp add: accepts_lit)
  then have "accepts [spaces0, valueGroup] (drop (length symbol) ?u)"
    by (rule equals_is_a_value_start)
  with s have "accepts (lit symbol @ [spaces0, valueGroup]) ?u"
    by (simp add: accepts_lit)
  with k2 have "accepts (spaces0 # (lit symbol @ [spaces0, valueGroup])) (drop k1 t)"
    unfolding spaces0_def by auto
  with k1 show ?thesis
    unfolding short fieldGroup_def by auto
qed

lemma search_symbolic_shadow:
  "search (symbolic symbol) s = None \<Longrightarrow> search (symbolic (symbol @ ''='')) s = None"
  using search_accepts [of "symbolic symbol" s] search_accepts [of "symbolic (symbol @ ''='')" s]
    symbolic_shadow by blast

lemma letter_o_u_are_word:
  "canon x = canon (CHR ''o'') \<Longrightarrow> cmatch Word x"
  "canon x = canon (CHR ''u'') \<Longrightarrow> cmatch Word x"
  by (auto simp: canon_def lowerLetters_def upperLetters_def wordChars_def split: option.splits if_splits)

lemma worded_shadow:
  assumes "accepts (worded (w1 # ''ou'' # ws)) t"
  shows "\<exists>i. i \<le> length t \<and> accepts (worded ws) (drop i t)"
proof -
  let ?tail = "concat (map (\<lambda>w. spaces1 # lit w) ws) @ [spaces1, valueGroup]"
  have long: "worded (w1 # ''ou'' # ws)
      = fieldGroup # spaces1 # (lit w1 @ (spaces1 # (lit ''ou'' @ ?tail)))"
    by (simp add: worded_def)
  have short: "worded ws = fieldGroup # ?tail"
    by (simp add: worded_def)
  from assms obtain k1 where
    a1: "accepts (spaces1 # (lit w1 @ (spaces1 # (lit ''ou'' @ ?tail)))) (drop k1 t)"
    unfolding long fieldGroup_def by auto
  from a1 obtain k2 where
    a2: "accepts (lit w1 @ (spaces1 # (lit ''ou'' @ ?tail))) (drop k2 (drop k1 t))"
    unfolding spaces1_def by auto
  from a2 have
    a3: "accepts (spaces1 # (lit ''ou'' @ ?tail)) (drop (length w1) (drop k2 (drop k1 t)))"
    by (simp add: accepts_lit)
  from a3 obtain k3 where
    a4: "accepts (lit ''ou'' @ ?tail) (drop k3 (drop (length w1) (drop k2 (drop k1 t))))"
    unfolding spaces1_def by auto
  define n where "n = k3 + (length w1 + (k2 + k1))"
  have u: "drop k3 (drop (length w1) (drop k2 (drop k1 t))) = drop n t"
    by (simp add: n_def)
  from a4 have ou: "startsWithIgnoreCase (drop n t) ''ou''"
    and rest: "accepts ?tail (drop 2 (drop n t))"
    unfolding u by (simp_all add: accepts_lit)
  from ou obtain a b u' where shape: "drop n t = a # b # u'"
    and a: "canon a = canon (CHR ''o'')" and b: "canon b = canon (CHR ''u'')"
    by (cases "drop n t"; cases "tl (drop n t)") (auto simp: startsWithIgnoreCase_def)
  have "cmatch Word a" "cmatch Word b"
    using a b by (simp_all only: letter_o_u_are_word)
  then have "2 \<le> length (takeWhile (cmatch Word) (drop n t))"
    by (simp add: shape)
  with rest have "0 < (2::nat) \<and> 2 \<le> length (takeWhile (cmatch Word) (drop n t))
      \<and> accepts ?tail (drop 2 (drop n t))"
    by simp
  then have found: "accepts (worded ws) (drop n t)"
    unfolding short fieldGroup_def accepts.simps by blast
  have "n \<le> length t"
  proof (rule ccontr)
    assume "\<not> n \<le> length t"
    then have "drop n t = []" by simp
    with shape show False by simp
  qed
  with found show ?thesis by blast
qed

lemma search_worded_shadow:
  assumes "search (worded ws) s = None"
  shows "search (worded (w1 # ''ou'' # ws)) s = None"
proof (rule ccontr)
  assume "search (worded (w1 # ''ou'' # ws)) s \<noteq> None"
  then obtain i where i: "i \<le> length s" and "accepts (worded (w1 # ''ou'' # ws)) (drop i s)"
    unfolding search_accepts by blast
  from worded_shadow [OF this(2)]
  obtain j where "j \<le> length (drop i s)" "accepts (worded ws) (drop j (drop i s))"
    by blast
  with i have "j + i \<le> length s \<and> accepts (worded ws) (drop (j + i) s)"
    by simp
  then have "search (worded ws) s \<noteq> None"
    unfolding search_accepts by blast
  with assms show False by simp
qed

lemma firstMatch_never_ge_le:
  assumes "firstMatch patterns input = Some (caps, operator)"
  shows "operator \<noteq> ''ge'' \<and> operator \<noteq> ''le''"
proof -
  have ge: "search (symbolic ''>'') input = None \<Longrightarrow> search (symbolic ''>='') input = None"
    using search_symbolic_shadow [of "''>''" input] by simp
  have le: "search (symbolic ''<'') input = None \<Longrightarrow> search (symbolic ''<='') input = None"
    using search_symbolic_shadow [of "''<''" input] by simp
  have wge: "search (worded [''igual'', ''a'']) input = None
      \<Longrightarrow> search (worded [''maior'', ''ou'', ''igual'', ''a'']) input = None"
    by (rule search_worded_shadow)
  have wle: "search (worded [''igual'', ''a'']) input = None
      \<Longrightarrow> search (worded [''menor'', ''ou'', ''igual'', ''a'']) input = None"
    by (rule search_worded_shadow)
  from assms show ?thesis
    unfolding patterns_def
    by (auto split: option.splits simp: ge le wge wle)
qed

lemma parseFilterInput_never_ge_le:
  "parseFilterInput input \<noteq> Inr [(field, Cond (Val ''ge'') v)]
   \<and> parseFilterInput input \<noteq> Inr [(field, Cond (Val ''le'') v)]"
  using firstMatch_never_ge_le [of input]
  by (auto simp: parseFilterInput_def split: option.splits prod.splits)

text \<open>
  C2. The claim has \<open>field >= value\<close> parsed to the operator \<open>ge\<close> and \<open>field <= value\<close> to
  \<open>le\<close>, each with the text after the symbol as value. In the ordered bank the patterns for
  \<open>>\<close> and \<open><\<close> stand before those for \<open>>=\<close> and \<open><=\<close> and match first: the code returns
  \<open>gt\<close> and \<open>lt\<close>, with a value that starts with the equals sign, and no input at all is
  parsed to \<open>ge\<close> or \<open>le\<close>. \<open>field != value\<close> does reach its pattern and gives \<open>ne\<close>.
\<close>

theorem parseFilterInput_symbol_order:
  "parseFilterInput ''idade >= 18'' = Inr [(''idade'', Cond (Val ''gt'') ''= 18'')]
   \<and> parseFilterInput ''idade <= 18'' = Inr [(''idade'', Cond (Val ''lt'') ''= 18'')]
   \<and> parseFilterInput ''idade != 18'' = Inr [(''idade'', Cond (Val ''ne'') ''18'')]
   \<and> (\<forall>input field v. parseFilterInput input \<noteq> Inr [(field, Cond (Val ''ge'') v)]
                        \<and> parseFilterInput input \<noteq> Inr [(field, Cond (Val ''le'') v)])"
proof -
  have "parseFilterInput ''idade >= 18'' = Inr [(''idade'', Cond (Val ''gt'') ''= 18'')]
      \<and> parseFilterInput ''idade <= 18'' = Inr [(''idade'', Cond (Val ''lt'') ''= 18'')]
      \<and> parseFilterInput ''idade != 18'' = Inr [(''idade'', Cond (Val ''ne'') ''18'')]"
    by code_simp
  with parseFilterInput_never_ge_le show ?thesis
    by blast
qed

subsection \<open>The filter builder\<close>

lemma join_spec_join:
  "join '' and '' parts = spec_join parts"
proof (cases parts)
  case Nil
  then show ?thesis by simp
next
  case (Cons clause clauses)
  have "join '' and '' (clause # clauses) = spec_join (clause # clauses)"
    by (induction clauses arbitrary: clause) simp_all
  with Cons show ?thesis by simp
qed

lemma idField_spec_singular:
  "idField ename = spec_singular ename @ ''id''"
  by (cases ename rule: rev_cases) (simp_all add: idField_def spec_singular_def endsWith_def)

lemma filterPart_spec_comparison:
  "filterPart field (Cond (Val operator) v) = spec_comparison field operator v"
  by (simp add: spec_comparison_def comparisonOperators_def stringOperators_def quote_def)

lemma collectParts_stored:
  "list_all plainField ses \<Longrightarrow>
   collectParts ename (map stored ses) parts = parts @ List.map_filter (spec_render ename) ses"
proof (induction ses arbitrary: parts)
  case Nil
  show ?case by (simp add: List.map_filter_simps)
next
  case (Cons s ses)
  then have rest: "\<And>parts. collectParts ename (map stored ses) parts
                     = parts @ List.map_filter (spec_render ename) ses"
    by simp
  show ?case
  proof (cases s)
    case (IdEquals v)
    then show ?thesis
      by (simp add: rest List.map_filter_simps idField_spec_singular)
  next
    case (Compare field operator v)
    with Cons.prems have plain: "field \<noteq> ''id''"
      by simp
    show ?thesis
    proof (cases "spec_comparison field operator v")
      case None
      with plain show ?thesis
        by (simp add: Compare rest List.map_filter_simps filterPart_spec_comparison
            del: filterPart.simps)
    next
      case (Some part)
      with plain show ?thesis
        by (simp add: Compare rest List.map_filter_simps filterPart_spec_comparison
            del: filterPart.simps)
    qed
  qed
qed

lemma buildODataFilter_stored:
  assumes "list_all plainField ses"
  shows "buildODataFilter ename (map stored ses) = spec_filter ename ses"
proof (cases ses)
  case Nil
  then show ?thesis
    by (simp add: buildODataFilter_def spec_filter_def List.map_filter_simps)
next
  case (Cons s rest)
  with collectParts_stored [OF assms, of ename "[]"] show ?thesis
    by (simp add: buildODataFilter_def spec_filter_def join_spec_join)
qed

lemma fieldMappings_names_not_empty:
  "map_of fieldMappings name = Some table \<Longrightarrow> map_of table field = Some api \<Longrightarrow> api \<noteq> []"
proof -
  assume table: "map_of fieldMappings name = Some table" and api: "map_of table field = Some api"
  have filled: "\<forall>entry \<in> set fieldMappings. \<forall>word \<in> set (snd entry). snd word \<noteq> []"
    by (simp add: fieldMappings_def)
  from table have "(name, table) \<in> set fieldMappings"
    by (rule map_of_SomeD)
  moreover from api have "(field, api) \<in> set table"
    by (rule map_of_SomeD)
  ultimately show ?thesis
    using filled by fastforce
qed

lemma mapFieldName_spec_translate:
  assumes "name \<notin> set objectPrototypeMembers" and "field \<notin> set objectPrototypeMembers"
  shows "mapFieldName (Val name) field = Inr (Val (spec_translate name field))"
proof (cases "map_of fieldMappings name")
  case None
  with assms show ?thesis
    by (simp add: mapFieldName_def spec_translate_def rec_get_def)
next
  case (Some table)
  show ?thesis
  proof (cases "map_of table field")
    case None
    with Some assms show ?thesis
      by (simp add: mapFieldName_def spec_translate_def rec_get_def)
  next
    case (Some api)
    with \<open>map_of fieldMappings name = Some table\<close> have "api \<noteq> []"
      by (rule fieldMappings_names_not_empty)
    with Some \<open>map_of fieldMappings name = Some table\<close> show ?thesis
      by (simp add: mapFieldName_def spec_translate_def rec_get_def)
  qed
qed

lemma collectPartsNL_stored:
  assumes "name \<notin> set objectPrototypeMembers"
  shows "list_all (\<lambda>c. fst c \<notin> set objectPrototypeMembers) cs \<Longrightarrow>
         collectPartsNL (Val name) (map storedNL cs) parts
           = Inr (parts @ List.map_filter
                    (\<lambda>(field, operator, v). spec_comparison (spec_translate name field) operator v) cs)"
proof (induction cs arbitrary: parts)
  case Nil
  show ?case by (simp add: List.map_filter_simps)
next
  case (Cons c cs)
  obtain field operator v where c: "c = (field, operator, v)"
    by (cases c)
  from Cons.prems c have field: "field \<notin> set objectPrototypeMembers"
    by simp
  from Cons have rest: "\<And>parts. collectPartsNL (Val name) (map storedNL cs) parts
      = Inr (parts @ List.map_filter
               (\<lambda>(field, operator, v). spec_comparison (spec_translate name field) operator v) cs)"
    by simp
  note mapped = mapFieldName_spec_translate [OF assms field]
  have entry: "storedNL (field, operator, v) = (field, Cond (Val operator) v)"
    by (simp add: storedNL_def)
  show ?case
    by (cases "spec_comparison (spec_translate name field) operator v")
       (simp_all add: c entry mapped rest List.map_filter_simps filterPart_spec_comparison
          del: filterPart.simps)
qed

lemma buildODataFilterNL_stored:
  assumes "name \<notin> set objectPrototypeMembers"
    and "list_all (\<lambda>c. fst c \<notin> set objectPrototypeMembers) cs"
  shows "buildODataFilterNL (Val name) (map storedNL cs) = Inr (spec_filter_translated name cs)"
proof (cases cs)
  case Nil
  then show ?thesis
    by (simp add: buildODataFilterNL_def spec_filter_translated_def List.map_filter_simps)
next
  case (Cons c rest)
  with collectPartsNL_stored [OF assms, of "[]"] show ?thesis
    by (simp add: buildODataFilterNL_def spec_filter_translated_def join_spec_join)
qed

text \<open>
  C8, as the code has it. Take a filter map of the specification: the key \<open>id\<close>, when
  present, holds the id of a record, and every other entry is a field with an operator and
  a raw value. For every entity the builder of the assistant returns the clauses of the
  entries joined with \<open>and\<close>: an entry with a comparison operator gives \<open>field op 'value'\<close>,
  one with a string operator gives \<open>op(field, 'value')\<close>, the key \<open>id\<close> gives the entity
  name without one trailing \<open>s\<close>, then \<open>id eq\<close> and the id unquoted, and an entry with any
  other operator gives no clause and no failure. The builder of the natural-language
  service has no pseudo-field: for an entity and fields that are not named like a member
  of \<open>Object.prototype\<close> it renders every entry, the key \<open>id\<close> included, as a comparison on
  the field name translated by the table of the entity, a field without an entry in the
  table keeping its name, and it joins and drops in the same way. Nothing is stated about
  a key \<open>id\<close> that holds an operator and a value in the builder of the assistant.
\<close>

theorem filter_builders_render_entries:
  "(list_all plainField ses \<longrightarrow> buildODataFilter ename (map stored ses) = spec_filter ename ses)
   \<and> (name \<notin> set objectPrototypeMembers \<and> list_all (\<lambda>c. fst c \<notin> set objectPrototypeMembers) cs
        \<longrightarrow> buildODataFilterNL (Val name) (map storedNL cs) = Inr (spec_filter_translated name cs))"
  using buildODataFilter_stored buildODataFilterNL_stored by blast

theorem filter_builders_render_entries_witness:
  "list_all plainField
     [IdEquals ''42'', Compare ''name'' ''contains'' ''Micro'', Compare ''revenue'' ''between'' ''1'',
      Compare ''city'' ''eq'' ''Porto'']
   \<and> buildODataFilter ''accounts''
       [(''id'', Raw ''42''), (''name'', Cond (Val ''contains'') ''Micro''),
        (''revenue'', Cond (Val ''between'') ''1''), (''city'', Cond (Val ''eq'') ''Porto'')]
     = ''accountid eq 42 and contains(name, '' @ [CHR 0x27] @ ''Micro'' @ [CHR 0x27]
         @ '') and city eq '' @ [CHR 0x27] @ ''Porto'' @ [CHR 0x27]
   \<and> ''accounts'' \<notin> set objectPrototypeMembers
   \<and> list_all (\<lambda>c. fst c \<notin> set objectPrototypeMembers)
       [(''nome'', ''startswith'', ''Micro''), (''cidade'', ''like'', ''P''),
        (''revenue'', ''gt'', ''1000''), (''id'', ''eq'', ''42'')]
   \<and> buildODataFilterNL (Val ''accounts'')
       [(''nome'', Cond (Val ''startswith'') ''Micro''), (''cidade'', Cond (Val ''like'') ''P''),
        (''revenue'', Cond (Val ''gt'') ''1000''), (''id'', Cond (Val ''eq'') ''42'')]
     = Inr (''startswith(name, '' @ [CHR 0x27] @ ''Micro'' @ [CHR 0x27] @ '') and revenue gt ''
            @ [CHR 0x27] @ ''1000'' @ [CHR 0x27] @ '' and id eq '' @ [CHR 0x27] @ ''42''
            @ [CHR 0x27])"
proof -
  let ?ses = "[IdEquals ''42'', Compare ''name'' ''contains'' ''Micro'',
               Compare ''revenue'' ''between'' ''1'', Compare ''city'' ''eq'' ''Porto'']"
  let ?cs = "[(''nome'', ''startswith'', ''Micro''), (''cidade'', ''like'', ''P''),
              (''revenue'', ''gt'', ''1000''), (''id'', ''eq'', ''42'')]"
  have plain: "list_all plainField ?ses"
    by simp
  have names: "''accounts'' \<notin> set objectPrototypeMembers"
    "list_all (\<lambda>c. fst c \<notin> set objectPrototypeMembers) ?cs"
    by (simp_all add: objectPrototypeMembers_def)
  have translated: "spec_translate ''accounts'' ''nome'' = ''name''"
    "spec_translate ''accounts'' ''cidade'' = ''address1_city''"
    "spec_translate ''accounts'' ''revenue'' = ''revenue''"
    "spec_translate ''accounts'' ''id'' = ''id''"
    by (simp_all add: spec_translate_def fieldMappings_def)
  note both = filter_builders_render_entries [of ?ses "''accounts''" "''accounts''" ?cs]
  from both plain have "buildODataFilter ''accounts'' (map stored ?ses) = spec_filter ''accounts'' ?ses"
    by blast
  then have first: "buildODataFilter ''accounts'' (map stored ?ses)
      = ''accountid eq 42 and contains(name, '' @ [CHR 0x27] @ ''Micro'' @ [CHR 0x27]
         @ '') and city eq '' @ [CHR 0x27] @ ''Porto'' @ [CHR 0x27]"
    by (simp add: spec_filter_def spec_comparison_def spec_singular_def List.map_filter_simps)
  from both names have "buildODataFilterNL (Val ''accounts'') (map storedNL ?cs)
      = Inr (spec_filter_translated ''accounts'' ?cs)"
    by blast
  then have second: "buildODataFilterNL (Val ''accounts'') (map storedNL ?cs)
      = Inr (''startswith(name, '' @ [CHR 0x27] @ ''Micro'' @ [CHR 0x27] @ '') and revenue gt ''
            @ [CHR 0x27] @ ''1000'' @ [CHR 0x27] @ '' and id eq '' @ [CHR 0x27] @ ''42''
            @ [CHR 0x27])"
    by (simp add: spec_filter_translated_def spec_comparison_def translated List.map_filter_simps)
  from plain names first second show ?thesis
    by (simp add: storedNL_def)
qed

text \<open>
  The claim C8 as stated gives the key \<open>id\<close> its special clause in the filter builder, for
  the filter map \<open>id = 42\<close> of the entity \<open>accounts\<close> the clause \<open>accountid eq 42\<close>. The
  builder of the natural-language service has no such case: the entry that the words
  \<open>id = 42\<close> produce is rendered like any other comparison, quoted, on the field \<open>id\<close>.
\<close>

theorem nl_builder_has_no_id_case_counterexample:
  "filters (parseQuery ''listar contas id = 42'') = [(''id'', Cond (Val ''eq'') ''42'')]
   \<and> buildODataFilterNL (Val ''accounts'') [(''id'', Cond (Val ''eq'') ''42'')]
       = Inr (''id eq '' @ [CHR 0x27] @ ''42'' @ [CHR 0x27])
   \<and> spec_filter ''accounts'' [IdEquals ''42''] = ''accountid eq 42''"
  by code_simp

text \<open>
  A key \<open>id\<close> that holds an operator and a value is outside the statement above. The filter
  step of a list session stores such an entry for the words \<open>id = 42\<close>, and the builder of the
  assistant then writes the text of the stored object after \<open>eq\<close>.
\<close>

lemma assistant_builder_id_comparison:
  "parseFilterInput ''id = 42'' = Inr [(''id'', Cond (Val ''eq'') ''42'')]
   \<and> buildODataFilter ''accounts'' [(''id'', Cond (Val ''eq'') ''42'')]
       = ''accountid eq [object Object]''"
  by code_simp


section \<open>Properties of the query assistant\<close>

lemma map_of_update_same: "map_of (AList.update k v al) k = Some v"
  by (simp add: update_conv')

lemma processInput_found:
  assumes "map_of sessions sessionId = Some s"
    and "processStep conn (s \<lparr> lastActivity := now \<rparr>) input = Inr (r, s')"
  shows "processInput conn now sessionId input sessions = (r, AList.update sessionId s' sessions)"
  using assms by (simp add: processInput_def Let_def)

lemma processInput_missing:
  "map_of sessions sessionId = None \<Longrightarrow>
     processInput conn now sessionId input sessions = (say SessionNotFound, sessions)"
  by (simp add: processInput_def)

lemma store_keys_distinct:
  assumes "distinct (map fst sessions)"
  shows "distinct (map fst (snd (startSession now suffix sessions)))"
    and "distinct (map fst (snd (processInput conn now sessionId input sessions)))"
    and "distinct (map fst (snd (endSession sessionId sessions)))"
  using assms
  by (auto simp: startSession_def processInput_def endSession_def Let_def distinct_update
      distinct_delete split: option.splits sum.splits prod.splits)

subsection \<open>The expiry sweep\<close>

lemma sweep_is_filter:
  "fold (\<lambda>(sessionId, session) store.
           if isExpired now session then AList.delete sessionId store else store) xs store
   = filter (\<lambda>(k, v). \<not> (\<exists>x. (k, x) \<in> set xs \<and> isExpired now x)) store"
proof (induction xs arbitrary: store)
  case Nil
  show ?case by simp
next
  case (Cons entry xs)
  obtain k0 s0 where entry: "entry = (k0, s0)"
    by (cases entry)
  show ?case
  proof (cases "isExpired now s0")
    case True
    then show ?thesis
      by (auto simp: entry Cons.IH AList.delete_eq intro!: filter_cong)
  next
    case False
    then show ?thesis
      by (auto simp: entry Cons.IH intro!: filter_cong)
  qed
qed

lemma map_of_filter_distinct:
  "distinct (map fst xs) \<Longrightarrow>
     map_of (filter P xs) k =
       (case map_of xs k of Some v \<Rightarrow> if P (k, v) then Some v else None | None \<Rightarrow> None)"
proof (induction xs)
  case Nil
  show ?case by simp
next
  case (Cons entry xs)
  obtain k0 v0 where entry: "entry = (k0, v0)"
    by (cases entry)
  from Cons.prems have fresh: "map_of xs k0 = None" and rest: "distinct (map fst xs)"
    by (auto simp: entry map_of_eq_None_iff)
  show ?case
    using Cons.IH [OF rest] fresh
    by (auto simp: entry split: option.splits)
qed

lemma cleanup_lookup:
  assumes "distinct (map fst sessions)"
  shows "map_of (cleanupExpiredSessions now sessions) k =
     (case map_of sessions k of
        Some s \<Rightarrow> if isExpired now s then None else Some s
      | None \<Rightarrow> None)"
proof (cases "map_of sessions k")
  case None
  with assms show ?thesis
    by (simp add: cleanupExpiredSessions_def sweep_is_filter map_of_filter_distinct)
next
  case (Some s)
  have "(\<exists>x. (k, x) \<in> set sessions \<and> isExpired now x) = isExpired now s"
  proof -
    have "x = s" if "(k, x) \<in> set sessions" for x
      using that assms Some by (simp add: map_of_eq_Some_iff)
    moreover have "(k, s) \<in> set sessions"
      using Some by (rule map_of_SomeD)
    ultimately show ?thesis by blast
  qed
  with assms Some show ?thesis
    by (simp add: cleanupExpiredSessions_def sweep_is_filter map_of_filter_distinct)
qed

text \<open>
  C5. In a store whose keys are distinct (it is a map), the expiry sweep keeps a session
  exactly when its last activity is not more than 30 minutes before the time of the sweep,
  and leaves it as it was. For a session id that is not in the store, \<open>processInput\<close>
  returns the reply that the session was not found, with \<open>completed\<close> false, and leaves the
  store alone; so it does for a session that the sweep has just removed.
\<close>

theorem sweep_and_missing_session:
  assumes "distinct (map fst sessions)"
  shows "(\<forall>k s. map_of (cleanupExpiredSessions now sessions) k = Some s
            \<longleftrightarrow> map_of sessions k = Some s \<and> \<not> (now - lastActivity s > 30 * 60 * 1000))
       \<and> (\<forall>k input t. map_of sessions k = None
            \<longrightarrow> processInput conn t k input sessions
                = (\<lparr> reply_message = SessionNotFound, reply_completed = False, reply_result = None \<rparr>,
                   sessions))
       \<and> (\<forall>k s input t. map_of sessions k = Some s \<and> now - lastActivity s > 30 * 60 * 1000
            \<longrightarrow> processInput conn t k input (cleanupExpiredSessions now sessions)
                = (\<lparr> reply_message = SessionNotFound, reply_completed = False, reply_result = None \<rparr>,
                   cleanupExpiredSessions now sessions))"
proof -
  have expired: "isExpired now s \<longleftrightarrow> now - lastActivity s > 30 * 60 * 1000" for s
    by (auto simp: isExpired_def sessionExpirationMinutes_def)
  have kept: "map_of (cleanupExpiredSessions now sessions) k = Some s
      \<longleftrightarrow> map_of sessions k = Some s \<and> \<not> (now - lastActivity s > 30 * 60 * 1000)" for k s
    unfolding cleanup_lookup [OF assms] expired [symmetric]
    by (auto split: option.splits)
  have missing: "processInput conn t k input sessions
      = (\<lparr> reply_message = SessionNotFound, reply_completed = False, reply_result = None \<rparr>, sessions)"
    if "map_of sessions k = None" for k input t
    using processInput_missing [OF that] by (simp add: say_def)
  have swept: "processInput conn t k input (cleanupExpiredSessions now sessions)
      = (\<lparr> reply_message = SessionNotFound, reply_completed = False, reply_result = None \<rparr>,
         cleanupExpiredSessions now sessions)"
    if "map_of sessions k = Some s" and "now - lastActivity s > 30 * 60 * 1000" for k s input t
  proof -
    have "map_of (cleanupExpiredSessions now sessions) k = None"
      using that by (simp add: cleanup_lookup [OF assms] expired)
    then show ?thesis
      using processInput_missing by (simp add: say_def)
  qed
  from kept missing swept show ?thesis by blast
qed

theorem sweep_and_missing_session_witness:
  "map_of (cleanupExpiredSessions 1805000 sampleStore) ''query-1000-k3j9x2a'' = Some confirmSession
   \<and> processInput failingConnector 1805001 ''query-0-aaaaaaa'' ''casos''
        (cleanupExpiredSessions 1805000 sampleStore)
      = (\<lparr> reply_message = SessionNotFound, reply_completed = False, reply_result = None \<rparr>,
         cleanupExpiredSessions 1805000 sampleStore)"
proof -
  have keys: "distinct (map fst sampleStore)"
    by (simp add: sampleStore_def)
  have fresh: "map_of sampleStore ''query-1000-k3j9x2a'' = Some confirmSession
      \<and> \<not> (1805000 - lastActivity confirmSession > 30 * 60 * 1000)"
    by (simp add: sampleStore_def confirmSession_def)
  have stale: "map_of sampleStore ''query-0-aaaaaaa'' = Some staleSession
      \<and> 1805000 - lastActivity staleSession > 30 * 60 * 1000"
    by (simp add: sampleStore_def staleSession_def)
  from sweep_and_missing_session [OF keys, of 1805000 failingConnector] fresh stale
  show ?thesis by blast
qed

subsection \<open>The confirmation step\<close>

lemma executeQuery_ignores_lastActivity:
  "executeQuery conn (s \<lparr> lastActivity := t \<rparr>) = executeQuery conn s"
  by (simp add: executeQuery_def cong: option.case_cong sum.case_cong if_cong)

lemma executeQuery_connector_throws:
  assumes "entity s = Some (Val name)" and "name \<noteq> []"
    and "action s = Some a" and "a \<in> {''list'', ''get'', ''count''}"
    and "\<And>opts. queryEntities conn (Val name) opts = Inl m"
  shows "executeQuery conn s = Inl (ConnectorError m)"
  using assms by (auto simp: executeQuery_def buildSessionFilter_def)

text \<open>
  C6. At the confirmation step, when the answer is one of the affirmative words and the
  execution of the query throws (the connector call fails), \<open>processInput\<close> returns the
  reply that the query failed, with \<open>completed\<close> false and no result, and the store holds
  the session as it was with only its last activity set to the time of the call: the step
  is still the confirmation, and entity, action, filter, fields, order, limit and the
  completed flag are those of before.
\<close>

theorem confirm_failure_keeps_session:
  assumes found: "map_of sessions sessionId = Some s"
    and step: "currentStep s = ''confirm''"
    and yes: "toLowerCase (trim input) \<in> set yesWords"
    and throws: "executeQuery conn s = Inl err"
  shows "processInput conn now sessionId input sessions
           = (\<lparr> reply_message = QueryFailed err, reply_completed = False, reply_result = None \<rparr>,
              AList.update sessionId (s \<lparr> lastActivity := now \<rparr>) sessions)
       \<and> map_of (snd (processInput conn now sessionId input sessions)) sessionId
           = Some (s \<lparr> lastActivity := now \<rparr>)"
proof -
  have "processStep conn (s \<lparr> lastActivity := now \<rparr>) input
      = Inr (say (QueryFailed err), s \<lparr> lastActivity := now \<rparr>)"
    using step yes throws
    by (simp add: processStep_def processConfirmStep_def Let_def executeQuery_ignores_lastActivity)
  from processInput_found [OF found this] show ?thesis
    by (simp add: say_def map_of_update_same)
qed

theorem confirm_failure_keeps_session_witness:
  "processInput failingConnector 9000 ''query-1000-k3j9x2a'' ''Sim'' sampleStore
     = (\<lparr> reply_message = QueryFailed (ConnectorError ''Request failed with status code 500''),
          reply_completed = False, reply_result = None \<rparr>,
        AList.update ''query-1000-k3j9x2a'' (confirmSession \<lparr> lastActivity := 9000 \<rparr>) sampleStore)
   \<and> map_of (snd (processInput failingConnector 9000 ''query-1000-k3j9x2a'' ''Sim'' sampleStore))
        ''query-1000-k3j9x2a''
     = Some (confirmSession \<lparr> lastActivity := 9000 \<rparr>)"
proof -
  have found: "map_of sampleStore ''query-1000-k3j9x2a'' = Some confirmSession"
    by (simp add: sampleStore_def)
  have step: "currentStep confirmSession = ''confirm''"
    by (simp add: confirmSession_def)
  have yes: "toLowerCase (trim ''Sim'') \<in> set yesWords"
    by (simp add: toLowerCase_def trim_def isWhiteSpace_def lowerChar_def upperLetters_def
        lowerLetters_def yesWords_def)
  have throws: "executeQuery failingConnector confirmSession
      = Inl (ConnectorError ''Request failed with status code 500'')"
    by (rule executeQuery_connector_throws [where name = "''incidents''" and a = "''list''"])
       (simp_all add: confirmSession_def failingConnector_def)
  from confirm_failure_keeps_session [OF found step yes throws] show ?thesis .
qed

subsection \<open>The steps of a listing\<close>

lemma walk_words:
  "toLowerCase (trim ''1'') = ''1''"
  "toLowerCase (trim ''sem filtro'') = ''sem filtro''"
  "toLowerCase (trim ''todos'') = ''todos''"
  "toLowerCase (trim defaultWord) = defaultWord"
  "toLowerCase (trim ''sim'') = ''sim''"
  by (simp_all add: toLowerCase_def trim_def isWhiteSpace_def lowerChar_def upperLetters_def
      lowerLetters_def defaultWord_def)

lemma step_entity_accepted:
  assumes "currentStep s = ''entity''"
    and "getEntityMetadata conn (resolveEntity x) validationRequest = Inr md"
  shows "processStep conn s x =
     Inr (say (EntitySelected (resolveEntity x)),
          s \<lparr> entity := Some (resolveEntity x), currentStep := ''action'' \<rparr>)"
  using assms by (simp add: processStep_def processEntityStep_def Let_def)

lemma step_entity_rejected:
  assumes "currentStep s = ''entity''"
    and "getEntityMetadata conn (resolveEntity x) validationRequest = Inl err"
  shows "processStep conn s x = Inr (say (EntityNotRecognized (resolveEntity x)), s)"
  using assms by (simp add: processStep_def processEntityStep_def Let_def)

lemma step_action_list:
  assumes "currentStep s = ''action''"
  shows "processStep conn s ''1'' =
     Inr (say (AskFilter ''listar''), s \<lparr> action := Some ''list'', currentStep := ''filter'' \<rparr>)"
  using assms by (simp add: processStep_def processActionStep_def walk_words)

lemma step_filter_none:
  assumes "currentStep s = ''filter''"
  shows "processStep conn s ''sem filtro'' =
     Inr (say FilterDefined, s \<lparr> filter' := Some [], currentStep := ''fields'' \<rparr>)"
  using assms by (simp add: processStep_def processFilterStep_def walk_words noFilterWords_def)

lemma step_fields_all:
  assumes "currentStep s = ''fields''" and "action s = Some ''list''"
  shows "processStep conn s ''todos'' =
     Inr (say FieldsDefinedAskOrder, s \<lparr> fields' := None, currentStep := ''orderBy'' \<rparr>)"
  using assms by (simp add: processStep_def processFieldsStep_def walk_words)

lemma step_order_default:
  assumes "currentStep s = ''orderBy''"
  shows "processStep conn s defaultWord =
     Inr (say OrderDefined, s \<lparr> orderBy := Some ''createdon desc'', currentStep := ''limit'' \<rparr>)"
proof -
  have "defaultWord \<in> set defaultWords"
    by (simp add: defaultWord_def defaultWords_def)
  with assms show ?thesis
    by (simp add: processStep_def processOrderByStep_def walk_words)
qed

lemma step_limit_default:
  assumes "currentStep s = ''limit''"
  shows "processStep conn s defaultWord =
     Inr (say (LimitDefined (buildQuerySummary (s \<lparr> limit := Some 50, currentStep := ''confirm'' \<rparr>))),
          s \<lparr> limit := Some 50, currentStep := ''confirm'' \<rparr>)"
proof -
  have "defaultWord \<in> set defaultWords"
    by (simp add: defaultWord_def defaultWords_def)
  with assms show ?thesis
    by (simp add: processStep_def processLimitStep_def walk_words Let_def)
qed

lemma step_confirm_yes:
  assumes "currentStep s = ''confirm''" and "executeQuery conn s = Inr r"
  shows "processStep conn s ''sim'' =
     Inr (\<lparr> reply_message = QueryExecuted, reply_completed = True, reply_result = Some r \<rparr>,
          s \<lparr> completed := True \<rparr>)"
  using assms by (simp add: processStep_def processConfirmStep_def walk_words yesWords_def)

lemma executeQuery_default_listing:
  assumes "entity s = Some e" and "truthy e" and "action s = Some ''list''"
    and "filter' s = Some []" and "fields' s = None"
    and "orderBy s = Some ''createdon desc''" and "limit s = Some 50"
    and "queryEntities conn e defaultListOptions = Inr rows"
  shows "executeQuery conn s = Inr (Records rows)"
proof -
  have "buildSessionFilter e [] = Inr []"
    by (cases e) (simp_all add: buildSessionFilter_def buildODataFilter_def)
  with assms show ?thesis
    by (simp add: executeQuery_def orUndefined_def defaultListOptions_def)
qed

lemma processInputs_step:
  assumes "processInput conn now sessionId input sessions = (r, sessions1)"
    and "processInputs conn sessionId later sessions1 = (rs, sessions2)"
  shows "processInputs conn sessionId ((now, input) # later) sessions = (r # rs, sessions2)"
  using assms by simp

lemma full_walk_replies:
  assumes found: "map_of sessions sessionId = Some s"
    and step: "currentStep s = ''entity''"
    and named: "truthy (resolveEntity x)"
    and valid: "getEntityMetadata conn (resolveEntity x) validationRequest = Inr md"
    and rows: "queryEntities conn (resolveEntity x) defaultListOptions = Inr rows"
  shows "\<exists>r6 sessions' s'.
     processInputs conn sessionId (zip [t1, t2, t3, t4, t5, t6, t7] (fullWalk x)) sessions
       = ([say (EntitySelected (resolveEntity x)), say (AskFilter ''listar''), say FilterDefined,
           say FieldsDefinedAskOrder, say OrderDefined, say (LimitDefined r6),
           \<lparr> reply_message = QueryExecuted, reply_completed = True,
             reply_result = Some (Records rows) \<rparr>],
          sessions')
     \<and> map_of sessions' sessionId = Some s'
     \<and> completed s' \<and> currentStep s' = ''confirm'' \<and> entity s' = Some (resolveEntity x)"
proof -
  let ?e = "resolveEntity x"
  let ?s1 = "s \<lparr> lastActivity := t1, entity := Some ?e, currentStep := ''action'' \<rparr>"
  let ?s2 = "?s1 \<lparr> lastActivity := t2, action := Some ''list'', currentStep := ''filter'' \<rparr>"
  let ?s3 = "?s2 \<lparr> lastActivity := t3, filter' := Some [], currentStep := ''fields'' \<rparr>"
  let ?s4 = "?s3 \<lparr> lastActivity := t4, fields' := None, currentStep := ''orderBy'' \<rparr>"
  let ?s5 = "?s4 \<lparr> lastActivity := t5, orderBy := Some ''createdon desc'', currentStep := ''limit'' \<rparr>"
  let ?s6 = "?s5 \<lparr> lastActivity := t6, limit := Some 50, currentStep := ''confirm'' \<rparr>"
  let ?s7 = "?s6 \<lparr> lastActivity := t7, completed := True \<rparr>"
  let ?m1 = "AList.update sessionId ?s1 sessions"
  let ?m2 = "AList.update sessionId ?s2 ?m1"
  let ?m3 = "AList.update sessionId ?s3 ?m2"
  let ?m4 = "AList.update sessionId ?s4 ?m3"
  let ?m5 = "AList.update sessionId ?s5 ?m4"
  let ?m6 = "AList.update sessionId ?s6 ?m5"
  let ?m7 = "AList.update sessionId ?s7 ?m6"
  have p1: "processInput conn t1 sessionId x sessions = (say (EntitySelected ?e), ?m1)"
    using processInput_found [OF found step_entity_accepted [of "s \<lparr> lastActivity := t1 \<rparr>" conn x md]]
      step valid by simp
  have p2: "processInput conn t2 sessionId ''1'' ?m1 = (say (AskFilter ''listar''), ?m2)"
    using processInput_found [OF map_of_update_same step_action_list [of "?s1 \<lparr> lastActivity := t2 \<rparr>" conn]]
    by simp
  have p3: "processInput conn t3 sessionId ''sem filtro'' ?m2 = (say FilterDefined, ?m3)"
    using processInput_found [OF map_of_update_same step_filter_none [of "?s2 \<lparr> lastActivity := t3 \<rparr>" conn]]
    by simp
  have p4: "processInput conn t4 sessionId ''todos'' ?m3 = (say FieldsDefinedAskOrder, ?m4)"
    using processInput_found [OF map_of_update_same step_fields_all [of "?s3 \<lparr> lastActivity := t4 \<rparr>" conn]]
    by simp
  have p5: "processInput conn t5 sessionId defaultWord ?m4 = (say OrderDefined, ?m5)"
    using processInput_found [OF map_of_update_same step_order_default [of "?s4 \<lparr> lastActivity := t5 \<rparr>" conn]]
    by simp
  have p6: "processInput conn t6 sessionId defaultWord ?m5
      = (say (LimitDefined (buildQuerySummary ?s6)), ?m6)"
    using processInput_found [OF map_of_update_same step_limit_default [of "?s5 \<lparr> lastActivity := t6 \<rparr>" conn]]
    by simp
  have run: "executeQuery conn (?s6 \<lparr> lastActivity := t7 \<rparr>) = Inr (Records rows)"
    by (rule executeQuery_default_listing [where e = ?e]) (simp_all add: named rows)
  have p7: "processInput conn t7 sessionId ''sim'' ?m6
      = (\<lparr> reply_message = QueryExecuted, reply_completed = True,
           reply_result = Some (Records rows) \<rparr>, ?m7)"
    using processInput_found [OF map_of_update_same
        step_confirm_yes [of "?s6 \<lparr> lastActivity := t7 \<rparr>" conn "Records rows"]] run
    by simp
  have inputs: "zip [t1, t2, t3, t4, t5, t6, t7] (fullWalk x)
      = [(t1, x), (t2, ''1''), (t3, ''sem filtro''), (t4, ''todos''), (t5, defaultWord),
         (t6, defaultWord), (t7, ''sim'')]"
    by (simp add: fullWalk_def)
  have "processInputs conn sessionId [] ?m7 = ([], ?m7)"
    by simp
  note processInputs_step [OF p7 this]
  note processInputs_step [OF p6 this]
  note processInputs_step [OF p5 this]
  note processInputs_step [OF p4 this]
  note processInputs_step [OF p3 this]
  note processInputs_step [OF p2 this]
  note processInputs_step [OF p1 this]
  then have "processInputs conn sessionId (zip [t1, t2, t3, t4, t5, t6, t7] (fullWalk x)) sessions
      = ([say (EntitySelected ?e), say (AskFilter ''listar''), say FilterDefined,
          say FieldsDefinedAskOrder, say OrderDefined, say (LimitDefined (buildQuerySummary ?s6)),
          \<lparr> reply_message = QueryExecuted, reply_completed = True,
            reply_result = Some (Records rows) \<rparr>], ?m7)"
    unfolding inputs .
  moreover have "map_of ?m7 sessionId = Some ?s7"
    by (rule map_of_update_same)
  moreover have "completed ?s7 \<and> currentStep ?s7 = ''confirm'' \<and> entity ?s7 = Some ?e"
    by simp
  ultimately show ?thesis by blast
qed

text \<open>
  C4, as the code has it. A session made by \<open>startSession\<close> is in the store at the step
  \<open>entity\<close> and not completed. At that step, an input whose entity the connector cannot
  describe gets a reply with \<open>completed\<close> false and the session stays at \<open>entity\<close>. When the
  connector describes the entity of the input, that entity name is not empty, and the
  connector answers the listing, the seven inputs of the full walk end with the reply
  \<open>completed\<close> true carrying the records, and the session is completed.
\<close>

theorem assistant_walk:
  "(\<forall>now suffix sessions.
      \<exists>s. map_of (snd (startSession now suffix sessions)) (fst (fst (startSession now suffix sessions)))
             = Some s
         \<and> currentStep s = ''entity'' \<and> \<not> completed s)
   \<and> (\<forall>conn now sessionId x sessions s err.
        map_of sessions sessionId = Some s \<and> currentStep s = ''entity''
        \<and> getEntityMetadata conn (resolveEntity x) validationRequest = Inl err
        \<longrightarrow> reply_completed (fst (processInput conn now sessionId x sessions)) = False
          \<and> map_of (snd (processInput conn now sessionId x sessions)) sessionId
              = Some (s \<lparr> lastActivity := now \<rparr>)
          \<and> currentStep (s \<lparr> lastActivity := now \<rparr>) = ''entity'')
   \<and> (\<forall>conn sessionId x sessions s md rows t1 t2 t3 t4 t5 t6 t7.
        map_of sessions sessionId = Some s \<and> currentStep s = ''entity''
        \<and> truthy (resolveEntity x)
        \<and> getEntityMetadata conn (resolveEntity x) validationRequest = Inr md
        \<and> queryEntities conn (resolveEntity x) defaultListOptions = Inr rows
        \<longrightarrow> (\<exists>earlier sessions' s'.
              processInputs conn sessionId (zip [t1, t2, t3, t4, t5, t6, t7] (fullWalk x)) sessions
                = (earlier @ [\<lparr> reply_message = QueryExecuted, reply_completed = True,
                                reply_result = Some (Records rows) \<rparr>], sessions')
              \<and> length earlier = 6 \<and> list_all (\<lambda>r. \<not> reply_completed r) earlier
              \<and> map_of sessions' sessionId = Some s' \<and> completed s'))"
proof -
  have started: "\<exists>s. map_of (snd (startSession now suffix sessions))
        (fst (fst (startSession now suffix sessions))) = Some s
      \<and> currentStep s = ''entity'' \<and> \<not> completed s" for now suffix sessions
    by (simp add: startSession_def Let_def map_of_update_same)
  have rejected: "reply_completed (fst (processInput conn now sessionId x sessions)) = False
      \<and> map_of (snd (processInput conn now sessionId x sessions)) sessionId
          = Some (s \<lparr> lastActivity := now \<rparr>)
      \<and> currentStep (s \<lparr> lastActivity := now \<rparr>) = ''entity''"
    if "map_of sessions sessionId = Some s" and "currentStep s = ''entity''"
      and "getEntityMetadata conn (resolveEntity x) validationRequest = Inl err"
    for conn now sessionId x sessions s err
    using processInput_found [OF that(1)
        step_entity_rejected [of "s \<lparr> lastActivity := now \<rparr>" conn x err]] that(2,3)
    by (simp add: say_def map_of_update_same)
  have walked: "\<exists>earlier sessions' s'.
        processInputs conn sessionId (zip [t1, t2, t3, t4, t5, t6, t7] (fullWalk x)) sessions
          = (earlier @ [\<lparr> reply_message = QueryExecuted, reply_completed = True,
                          reply_result = Some (Records rows) \<rparr>], sessions')
        \<and> length earlier = 6 \<and> list_all (\<lambda>r. \<not> reply_completed r) earlier
        \<and> map_of sessions' sessionId = Some s' \<and> completed s'"
    if "map_of sessions sessionId = Some s" and "currentStep s = ''entity''"
      and "truthy (resolveEntity x)"
      and "getEntityMetadata conn (resolveEntity x) validationRequest = Inr md"
      and "queryEntities conn (resolveEntity x) defaultListOptions = Inr rows"
    for conn sessionId x sessions s md rows t1 t2 t3 t4 t5 t6 t7
  proof -
    from full_walk_replies [OF that, of t1 t2 t3 t4 t5 t6 t7]
    obtain r6 sessions' s' where
      w: "processInputs conn sessionId (zip [t1, t2, t3, t4, t5, t6, t7] (fullWalk x)) sessions
          = ([say (EntitySelected (resolveEntity x)), say (AskFilter ''listar''), say FilterDefined,
              say FieldsDefinedAskOrder, say OrderDefined, say (LimitDefined r6),
              \<lparr> reply_message = QueryExecuted, reply_completed = True,
                reply_result = Some (Records rows) \<rparr>], sessions')"
      and s': "map_of sessions' sessionId = Some s'" "completed s'"
      by blast
    let ?earlier = "[say (EntitySelected (resolveEntity x)), say (AskFilter ''listar''),
        say FilterDefined, say FieldsDefinedAskOrder, say OrderDefined, say (LimitDefined r6)]"
    have "processInputs conn sessionId (zip [t1, t2, t3, t4, t5, t6, t7] (fullWalk x)) sessions
        = (?earlier @ [\<lparr> reply_message = QueryExecuted, reply_completed = True,
                         reply_result = Some (Records rows) \<rparr>], sessions')"
      using w by simp
    moreover have "length ?earlier = 6 \<and> list_all (\<lambda>r. \<not> reply_completed r) ?earlier"
      by (simp add: say_def)
    ultimately show ?thesis using s' by blast
  qed
  have part1: "\<forall>now suffix sessions.
      \<exists>s. map_of (snd (startSession now suffix sessions)) (fst (fst (startSession now suffix sessions)))
             = Some s
         \<and> currentStep s = ''entity'' \<and> \<not> completed s"
    by (intro allI) (rule started)
  have part2: "\<forall>conn now sessionId x sessions s err.
        map_of sessions sessionId = Some s \<and> currentStep s = ''entity''
        \<and> getEntityMetadata conn (resolveEntity x) validationRequest = Inl err
        \<longrightarrow> reply_completed (fst (processInput conn now sessionId x sessions)) = False
          \<and> map_of (snd (processInput conn now sessionId x sessions)) sessionId
              = Some (s \<lparr> lastActivity := now \<rparr>)
          \<and> currentStep (s \<lparr> lastActivity := now \<rparr>) = ''entity''"
    by (intro allI impI, elim conjE, rule rejected)
  have part3: "\<forall>conn sessionId x sessions s md rows t1 t2 t3 t4 t5 t6 t7.
        map_of sessions sessionId = Some s \<and> currentStep s = ''entity''
        \<and> truthy (resolveEntity x)
        \<and> getEntityMetadata conn (resolveEntity x) validationRequest = Inr md
        \<and> queryEntities conn (resolveEntity x) defaultListOptions = Inr rows
        \<longrightarrow> (\<exists>earlier sessions' s'.
              processInputs conn sessionId (zip [t1, t2, t3, t4, t5, t6, t7] (fullWalk x)) sessions
                = (earlier @ [\<lparr> reply_message = QueryExecuted, reply_completed = True,
                                reply_result = Some (Records rows) \<rparr>], sessions')
              \<and> length earlier = 6 \<and> list_all (\<lambda>r. \<not> reply_completed r) earlier
              \<and> map_of sessions' sessionId = Some s' \<and> completed s')"
    by (intro allI impI, elim conjE, rule walked)
  from part1 part2 part3 show ?thesis
    by (intro conjI)
qed

theorem assistant_walk_witness:
  "(\<exists>earlier sessions' s'.
      processInputs sampleConnector ''query-0-aaaaaaa'' (zip [1, 2, 3, 4, 5, 6, 7] (fullWalk ''Casos''))
          sampleStore
        = (earlier @ [\<lparr> reply_message = QueryExecuted, reply_completed = True,
                        reply_result = Some (Records [sampleRecord]) \<rparr>], sessions')
      \<and> length earlier = 6 \<and> list_all (\<lambda>r. \<not> reply_completed r) earlier
      \<and> map_of sessions' ''query-0-aaaaaaa'' = Some s' \<and> completed s')
   \<and> reply_completed (fst (processInput failingConnector 10 ''query-0-aaaaaaa'' ''Casos'' sampleStore))
       = False
   \<and> map_of (snd (processInput failingConnector 10 ''query-0-aaaaaaa'' ''Casos'' sampleStore))
        ''query-0-aaaaaaa'' = Some (staleSession \<lparr> lastActivity := 10 \<rparr>)"
proof -
  have found: "map_of sampleStore ''query-0-aaaaaaa'' = Some staleSession"
    by (simp add: sampleStore_def)
  have step: "currentStep staleSession = ''entity''"
    by (simp add: staleSession_def)
  have e: "resolveEntity ''Casos'' = Val ''incidents''"
    by (simp add: resolveEntity_def rec_get_def entityMappings_def toLowerCase_def trim_def
        isWhiteSpace_def lowerChar_def upperLetters_def lowerLetters_def)
  have named: "truthy (resolveEntity ''Casos'')"
    by (simp add: e)
  have valid: "getEntityMetadata sampleConnector (resolveEntity ''Casos'') validationRequest
      = Inr (Some sampleRawEntity)"
    by (simp add: sampleConnector_def)
  have rows: "queryEntities sampleConnector (resolveEntity ''Casos'') defaultListOptions
      = Inr [sampleRecord]"
    by (simp add: sampleConnector_def)
  have fails: "getEntityMetadata failingConnector (resolveEntity ''Casos'') validationRequest
      = Inl ''Request failed with status code 404''"
    by (simp add: failingConnector_def)
  note w = assistant_walk
  from w have part2: "map_of sampleStore ''query-0-aaaaaaa'' = Some staleSession
        \<and> currentStep staleSession = ''entity''
        \<and> getEntityMetadata failingConnector (resolveEntity ''Casos'') validationRequest
            = Inl ''Request failed with status code 404''
        \<longrightarrow> reply_completed (fst (processInput failingConnector 10 ''query-0-aaaaaaa'' ''Casos'' sampleStore))
              = False
          \<and> map_of (snd (processInput failingConnector 10 ''query-0-aaaaaaa'' ''Casos'' sampleStore))
              ''query-0-aaaaaaa'' = Some (staleSession \<lparr> lastActivity := 10 \<rparr>)
          \<and> currentStep (staleSession \<lparr> lastActivity := 10 \<rparr>) = ''entity''"
    by (elim conjE allE)
  from w have part3: "map_of sampleStore ''query-0-aaaaaaa'' = Some staleSession
        \<and> currentStep staleSession = ''entity''
        \<and> truthy (resolveEntity ''Casos'')
        \<and> getEntityMetadata sampleConnector (resolveEntity ''Casos'') validationRequest
            = Inr (Some sampleRawEntity)
        \<and> queryEntities sampleConnector (resolveEntity ''Casos'') defaultListOptions = Inr [sampleRecord]
        \<longrightarrow> (\<exists>earlier sessions' s'.
              processInputs sampleConnector ''query-0-aaaaaaa''
                  (zip [1, 2, 3, 4, 5, 6, 7] (fullWalk ''Casos'')) sampleStore
                = (earlier @ [\<lparr> reply_message = QueryExecuted, reply_completed = True,
                                reply_result = Some (Records [sampleRecord]) \<rparr>], sessions')
              \<and> length earlier = 6 \<and> list_all (\<lambda>r. \<not> reply_completed r) earlier
              \<and> map_of sessions' ''query-0-aaaaaaa'' = Some s' \<and> completed s')"
    by (elim conjE allE)
  from part2 part3 found step named valid rows fails show ?thesis
    by simp
qed

text \<open>
  The claim C4 as stated lets the entity input be any input that the connector validates.
  The sample connector describes every name and answers every query; with the empty input
  the entity name is empty, and the walk ends with \<open>completed\<close> false: the confirmation step
  finds the parameters incomplete.
\<close>

theorem assistant_walk_empty_entity_counterexample:
  "getEntityMetadata sampleConnector (resolveEntity []) validationRequest = Inr (Some sampleRawEntity)
   \<and> queryEntities sampleConnector (resolveEntity []) defaultListOptions = Inr [sampleRecord]
   \<and> map_of sampleStore ''query-0-aaaaaaa'' = Some staleSession
   \<and> currentStep staleSession = ''entity''
   \<and> map reply_completed
        (fst (processInputs sampleConnector ''query-0-aaaaaaa''
               (zip [1, 2, 3, 4, 5, 6, 7] (fullWalk [])) sampleStore))
       = [False, False, False, False, False, False, False]
   \<and> last (fst (processInputs sampleConnector ''query-0-aaaaaaa''
               (zip [1, 2, 3, 4, 5, 6, 7] (fullWalk [])) sampleStore))
       = \<lparr> reply_message = QueryFailed IncompleteParameters, reply_completed = False,
           reply_result = None \<rparr>"
  by code_simp

section \<open>Properties of the natural-language parser\<close>

lemma limit_words_unknown:
  assumes "word \<in> set limitWords"
  shows "\<not> known actionMappings word" and "\<not> known entityMappingsNL word"
proof -
  from assms have w: "word = ''top'' \<or> word = ''limite'' \<or> word = ''limitar''
      \<or> word = ''limitado'' \<or> word = ''maximo'' \<or> word = ''max''"
    by (simp add: limitWords_def)
  have a: "\<not> known actionMappings ''top''" "\<not> known actionMappings ''limite''"
    "\<not> known actionMappings ''limitar''" "\<not> known actionMappings ''limitado''"
    "\<not> known actionMappings ''maximo''" "\<not> known actionMappings ''max''"
    by (simp_all add: known_def rec_get_def actionMappings_def objectPrototypeMembers_def)
  have e: "\<not> known entityMappingsNL ''top''" "\<not> known entityMappingsNL ''limite''"
    "\<not> known entityMappingsNL ''limitar''" "\<not> known entityMappingsNL ''limitado''"
    "\<not> known entityMappingsNL ''maximo''" "\<not> known entityMappingsNL ''max''"
    by (simp_all add: known_def rec_get_def entityMappingsNL_def objectPrototypeMembers_def)
  from w a show "\<not> known actionMappings word" by auto
  from w e show "\<not> known entityMappingsNL word" by auto
qed

lemma scan_limit_step:
  assumes "word \<in> set limitWords" and "parseInt following = Some n" and "0 < n"
  shows "scan (word # following # rest) r = scan rest (r \<lparr> limitOf := Some n \<rparr>)"
proof -
  have "limitAfter word (following # rest) = Some n"
    using assms by (simp add: limitAfter_def)
  then show ?thesis
    using limit_words_unknown [OF assms(1)] by simp
qed

lemma scan_keeps_limit:
  "\<forall>w \<in> set ws. w \<notin> set limitWords \<Longrightarrow> limitOf (scan ws r) = limitOf r"
proof (induction ws arbitrary: r rule: length_induct)
  case (1 ws)
  show ?case
  proof (cases ws)
    case Nil
    then show ?thesis by simp
  next
    case (Cons word rest)
    have shorter: "limitOf (scan ws' r') = limitOf r'"
      if "length ws' \<le> length rest" and "\<forall>w \<in> set ws'. w \<notin> set limitWords" for ws' r'
      using "1.IH" that Cons by simp
    have none: "limitAfter word rest = None"
      using "1.prems" Cons by (simp add: limitAfter_def)
    have rest: "\<forall>w \<in> set rest. w \<notin> set limitWords"
      using "1.prems" Cons by simp
    have "limitOf (scan (word # rest) r) = limitOf r"
      apply (subst scan.simps(2))
      using none rest
      apply (auto simp del: scan.simps simp: shorter split: list.splits option.splits)
      done
    then show ?thesis
      by (simp only: Cons)
  qed
qed

text \<open>
  C7, as the code has it. When the scan stands at one of the limit words and the word after
  it reads as a positive integer \<open>n\<close>, the step sets the limit to \<open>n\<close>, adds no filter and
  goes on after the two words; if no limit word follows, \<open>n\<close> is the limit of the result.
  A limit word that an earlier filter triple has taken as its value is not looked at.
  The query \<open>listar casos top 5\<close> gives the entity \<open>incidents\<close>, the action \<open>list\<close>, the
  limit 5 and no filter.
\<close>

theorem scan_limit_rule:
  "(\<forall>word following rest r n.
      word \<in> set limitWords \<and> parseInt following = Some n \<and> 0 < n
      \<longrightarrow> scan (word # following # rest) r = scan rest (r \<lparr> limitOf := Some n \<rparr>))
   \<and> (\<forall>word following rest r n.
      word \<in> set limitWords \<and> parseInt following = Some n \<and> 0 < n
      \<and> (\<forall>w \<in> set rest. w \<notin> set limitWords)
      \<longrightarrow> limitOf (scan (word # following # rest) r) = Some n)
   \<and> parseQuery ''listar casos top 5''
       = \<lparr> entityOf = Some (Val ''incidents''), actionOf = Some (Val ''list''), filters = [],
           fieldsOf = None, limitOf = Some 5 \<rparr>"
proof -
  have step: "\<forall>word following rest r n.
      word \<in> set limitWords \<and> parseInt following = Some n \<and> 0 < n
      \<longrightarrow> scan (word # following # rest) r = scan rest (r \<lparr> limitOf := Some n \<rparr>)"
    by (intro allI impI, elim conjE, rule scan_limit_step)
  have final: "limitOf (scan (word # following # rest) r) = Some n"
    if "word \<in> set limitWords" and "parseInt following = Some n" and "0 < n"
      and "\<forall>w \<in> set rest. w \<notin> set limitWords" for word following rest r n
    using scan_limit_step [OF that(1,2,3)] scan_keeps_limit [OF that(4)] by simp
  have final': "\<forall>word following rest r n.
      word \<in> set limitWords \<and> parseInt following = Some n \<and> 0 < n
      \<and> (\<forall>w \<in> set rest. w \<notin> set limitWords)
      \<longrightarrow> limitOf (scan (word # following # rest) r) = Some n"
    by (intro allI impI, elim conjE, rule final)
  have example: "parseQuery ''listar casos top 5''
       = \<lparr> entityOf = Some (Val ''incidents''), actionOf = Some (Val ''list''), filters = [],
           fieldsOf = None, limitOf = Some 5 \<rparr>"
    by code_simp
  from step final' example show ?thesis
    by (intro conjI)
qed

theorem scan_limit_rule_witness:
  "scan [''max'', ''0x10'', ''nome'', ''contem'', ''silva'']
      \<lparr> entityOf = Some (Val ''contacts''), actionOf = Some (Val ''list''), filters = [],
        fieldsOf = None, limitOf = None \<rparr>
     = scan [''nome'', ''contem'', ''silva'']
         \<lparr> entityOf = Some (Val ''contacts''), actionOf = Some (Val ''list''), filters = [],
           fieldsOf = None, limitOf = Some 16 \<rparr>
   \<and> limitOf (scan [''max'', ''0x10'', ''nome'', ''contem'', ''silva'']
        \<lparr> entityOf = Some (Val ''contacts''), actionOf = Some (Val ''list''), filters = [],
          fieldsOf = None, limitOf = None \<rparr>) = Some 16"
proof -
  have w: "''max'' \<in> set limitWords"
    by (simp add: limitWords_def)
  have n: "parseInt ''0x10'' = Some 16 \<and> (0::int) < 16"
    by code_simp
  have later: "\<forall>w \<in> set [''nome'', ''contem'', ''silva'']. w \<notin> set limitWords"
    by (simp add: limitWords_def)
  note rule = scan_limit_rule
  from rule have part1: "''max'' \<in> set limitWords \<and> parseInt ''0x10'' = Some 16 \<and> (0::int) < 16
      \<longrightarrow> scan (''max'' # ''0x10'' # [''nome'', ''contem'', ''silva''])
            \<lparr> entityOf = Some (Val ''contacts''), actionOf = Some (Val ''list''), filters = [],
              fieldsOf = None, limitOf = None \<rparr>
          = scan [''nome'', ''contem'', ''silva'']
              (\<lparr> entityOf = Some (Val ''contacts''), actionOf = Some (Val ''list''), filters = [],
                 fieldsOf = None, limitOf = None \<rparr> \<lparr> limitOf := Some 16 \<rparr>)"
    by (elim conjE allE)
  from rule have part2: "''max'' \<in> set limitWords \<and> parseInt ''0x10'' = Some 16 \<and> (0::int) < 16
      \<and> (\<forall>w \<in> set [''nome'', ''contem'', ''silva'']. w \<notin> set limitWords)
      \<longrightarrow> limitOf (scan (''max'' # ''0x10'' # [''nome'', ''contem'', ''silva''])
            \<lparr> entityOf = Some (Val ''contacts''), actionOf = Some (Val ''list''), filters = [],
              fieldsOf = None, limitOf = None \<rparr>) = Some 16"
    by (elim conjE allE)
  from part1 part2 w n later show ?thesis
    by simp
qed

text \<open>
  The claim C7 as stated covers every limit word that is followed by a positive integer. In
  \<open>listar casos nome contem top 5\<close> the word \<open>top\<close> is followed by \<open>5\<close>, but the filter rule
  has taken \<open>top\<close> as the value of \<open>nome contem\<close>: no limit is set.
\<close>

theorem limit_word_taken_by_filter_counterexample:
  "keptWords ''listar casos nome contem top 5''
       = [''listar'', ''casos'', ''nome'', ''contem'', ''top'', ''5'']
   \<and> ''top'' \<in> set limitWords \<and> parseInt ''5'' = Some 5
   \<and> limitOf (parseQuery ''listar casos nome contem top 5'') = None
   \<and> filters (parseQuery ''listar casos nome contem top 5'')
       = [(''nome'', Cond (Val ''contains'') ''top'')]"
  by code_simp

section \<open>Properties of the natural-language service\<close>

text \<open>
  C10, as the code has it. For every query whose detected action is \<open>create\<close>, \<open>update\<close> or
  \<open>delete\<close>, \<open>processQuery\<close> calls no connector operation and answers with \<open>success\<close> false.
  The message says that the operation is not supported when an entity was detected; when
  none was, the message says that the entity could not be identified.
\<close>

theorem processQuery_refuses_writes:
  assumes "actionOf (parseQuery (normalizeText query)) = Some (Val a)"
    and "a \<in> {''create'', ''update'', ''delete''}"
  shows "snd (processQuery conn query) = []
       \<and> \<not> success (fst (processQuery conn query))
       \<and> messageOf (fst (processQuery conn query))
           = Some (if \<not> entityDetected (parseQuery (normalizeText query)) then EntityNotIdentified
                   else if a = ''create'' then CreateNotSupported
                   else if a = ''update'' then UpdateNotSupported
                   else DeleteNotSupported)"
proof (cases "entityDetected (parseQuery (normalizeText query))")
  case False
  then show ?thesis
    by (simp add: processQuery_def Let_def)
next
  case True
  from assms(2) have "a = ''create'' \<or> a = ''update'' \<or> a = ''delete''"
    by simp
  then show ?thesis
  proof (elim disjE)
    assume "a = ''create''"
    with True assms(1) show ?thesis by (simp add: processQuery_def Let_def)
  next
    assume "a = ''update''"
    with True assms(1) show ?thesis by (simp add: processQuery_def Let_def)
  next
    assume "a = ''delete''"
    with True assms(1) show ?thesis by (simp add: processQuery_def Let_def)
  qed
qed

theorem processQuery_refuses_writes_witness:
  "snd (processQuery sampleConnector ''Excluir contas nome = Contoso'') = []
   \<and> \<not> success (fst (processQuery sampleConnector ''Excluir contas nome = Contoso''))
   \<and> messageOf (fst (processQuery sampleConnector ''Excluir contas nome = Contoso''))
       = Some DeleteNotSupported"
proof -
  have parsed: "actionOf (parseQuery (normalizeText ''Excluir contas nome = Contoso'')) = Some (Val ''delete'')
      \<and> entityDetected (parseQuery (normalizeText ''Excluir contas nome = Contoso''))"
    by code_simp
  have a: "''delete'' \<in> {''create'', ''update'', ''delete''}"
    by simp
  from processQuery_refuses_writes [OF conjunct1 [OF parsed] a, of sampleConnector] parsed
  show ?thesis by simp
qed

text \<open>
  The claim C10 as stated promises the message that the operation is not supported for
  every query with such an action. The query \<open>criar\<close> has the action \<open>create\<close> and names no
  entity: the answer is the message that the entity could not be identified.
\<close>

theorem processQuery_create_without_entity_counterexample:
  "actionOf (parseQuery (normalizeText ''criar'')) = Some (Val ''create'')
   \<and> processQuery sampleConnector ''criar'' = (Failure EntityNotIdentified ''criar'', [])"
  by code_simp
end
